theory Spec2Isabelle
  imports Main "HOL-Library.AList" "HOL-Library.Sublist"
begin

section \<open>The timeline drawer interface: \<open>qiskit/visualization/timeline/interface.py\<close>\<close>

text \<open>
  The module has one function, \<open>draw\<close>. It resolves a per-call style sheet, creates a
  drawer canvas, loads the program, applies the per-call configuration, updates the canvas,
  hands it to the plotter named by \<open>plotter\<close>, optionally saves the figure and returns
  the image. Everything \<open>draw\<close> calls lives in other modules (\<open>stylesheet\<close>, \<open>core\<close>,
  \<open>types\<close>, \<open>plotters\<close>): those collaborators are parameters of the model, and every
  theorem holds for all of them. The model records each call \<open>draw\<close> makes, in order, and
  keeps style objects in a store so that sharing between the caller's style mapping and
  the per-call style is visible.
\<close>

subsection \<open>Data\<close>

text \<open>Values of a style sheet (\<open>Dict[str, Any]\<close>): flags, numbers, texts and callables by name.\<close>

datatype style_value = VBool bool | VInt int | VStr string | VCallable string

text \<open>
  A Python \<open>dict\<close> keeps insertion order and has unique keys: an association list.
  Item assignment \<open>d[k] = v\<close> is \<open>AList.update k v\<close> (replace in place, else append).
\<close>

type_synonym style_dict = "(string \<times> style_value) list"

text \<open>
  A style object is a \<open>dict\<close> or an instance of a \<open>dict\<close> subclass (the preset classes
  \<open>IQXStandard\<close>, \<open>IQXSimple\<close>, \<open>IQXDebugging\<close>, and \<open>QiskitTimelineStyle\<close>): its class
  name and its items.
\<close>

record style_obj =
  class_name :: string
  items :: style_dict

text \<open>\<open>types.Bits\<close>: a qubit or a classical bit, by index.\<close>

datatype bits = Qubit nat | Clbit nat

text \<open>
  The data types \<open>set_disable_type\<close> accepts. The source names three members of
  \<open>types.LabelType\<close>; every other member of the enums of \<open>types\<close> is \<open>Other_type\<close>.
\<close>

datatype data_type = DELAY | GATE_PARAM | GATE_NAME | Other_type string

text \<open>
  \<open>types.Plotter.MPL.value\<close>. The enum is not part of the sources; the docstring of
  \<open>draw\<close> lists the one plotter API under the name \<open>mpl\<close>.
\<close>

definition Plotter_MPL_value :: string where
  "Plotter_MPL_value = ''mpl''"

text \<open>The arguments of \<open>draw\<close>, with Python's \<open>Optional\<close> as \<open>option\<close>. The field
  \<open>style\<close> is the caller's style object as it is when \<open>draw\<close> is called; \<open>draw\<close> receives
  a reference to it (see \<open>initial_world\<close>).\<close>

record ('prog, 'ax) draw_args =
  program :: 'prog
  style :: "style_obj option"
  time_range :: "(int \<times> int) option"
  disable_bits :: "bits list option"
  show_clbits :: "bool option"
  show_idle :: "bool option"
  show_barriers :: "bool option"
  show_delays :: "bool option"
  show_labels :: bool
  plotter :: "string option"
  axis :: "'ax option"
  filename :: "string option"

text \<open>The defaults of the signature.\<close>

definition default_args :: "'prog \<Rightarrow> ('prog, 'ax) draw_args" where
  "default_args p = \<lparr> program = p, style = None, time_range = None, disable_bits = None,
     show_clbits = None, show_idle = None, show_barriers = None, show_delays = None,
     show_labels = True, plotter = Some Plotter_MPL_value, axis = None, filename = None \<rparr>"

text \<open>
  Exceptions, by class and message; \<open>Other_error\<close> carries the name of any other class.
  \<open>draw\<close> itself raises \<open>ImportError\<close> and \<open>VisualizationError\<close>. A collaborator may raise
  any exception, of these two classes too, and it passes through \<open>draw\<close> unchanged.
\<close>

datatype exn = ImportError string | VisualizationError string | Other_error string string

text \<open>The calls \<open>draw\<close> makes, as they appear in the source.\<close>

datatype event =
    New_QiskitTimelineStyle
  | New_IQXStandard
  | Style_update nat
  | Style_setitem string bool
  | New_DrawerCanvas style_obj
  | Load_program
  | Set_time_range int int
  | Set_disable_bits bits bool
  | Set_disable_type data_type bool
  | Update
  | Import_MplPlotter
  | New_MplPlotter
  | Plotter_draw
  | Save_file string
  | Get_image

text \<open>
  The collaborators. A method that mutates its receiver returns the receiver's new state;
  a method that raises returns \<open>Inl\<close>. \<open>QiskitTimelineStyle\<close> and \<open>IQXStandard\<close> are the
  objects the two constructors build; constructors return. \<open>stylesheet_update self m\<close> is
  \<open>QiskitTimelineStyle.update\<close>, the \<open>update\<close> of a \<open>dict\<close> subclass: it reads \<open>m\<close> and
  changes its receiver only. \<open>MplPlotter\<close> is the class the import statement gives, and
  \<open>None\<close> when the import raises \<open>ImportError\<close>.
\<close>

record ('prog, 'c, 'ax, 'p, 'img) collaborators =
  QiskitTimelineStyle :: style_obj
  IQXStandard :: style_obj
  stylesheet_update :: "style_obj \<Rightarrow> style_obj \<Rightarrow> exn + style_obj"
  DrawerCanvas :: "style_obj \<Rightarrow> 'c"
  load_program :: "'c \<Rightarrow> 'prog \<Rightarrow> exn + 'c"
  set_time_range :: "'c \<Rightarrow> int \<Rightarrow> int \<Rightarrow> exn + 'c"
  set_disable_bits :: "'c \<Rightarrow> bits \<Rightarrow> bool \<Rightarrow> exn + 'c"
  set_disable_type :: "'c \<Rightarrow> data_type \<Rightarrow> bool \<Rightarrow> exn + 'c"
  canvas_update :: "'c \<Rightarrow> exn + 'c"
  MplPlotter :: "('c \<Rightarrow> 'ax option \<Rightarrow> 'p) option"
  plotter_draw :: "'p \<Rightarrow> exn + 'p"
  save_file :: "'p \<Rightarrow> string \<Rightarrow> exn + 'p"
  get_image :: "'p \<Rightarrow> exn + 'img"

text \<open>The world: the store of style objects, the next free address, the calls made so far.\<close>

record world =
  store :: "nat \<Rightarrow> style_obj"
  next_ref :: nat
  calls :: "event list"

text \<open>
  The world in which \<open>draw\<close> is called: the caller's style object, if there is one, is at
  address \<open>caller_style\<close>; no other object exists yet and no call has been made.
\<close>

definition caller_style :: nat where
  "caller_style = 0"

definition no_object :: style_obj where
  "no_object = \<lparr> class_name = [], items = [] \<rparr>"

definition initial_world :: "style_obj option \<Rightarrow> world" where
  "initial_world st =
     \<lparr> store = (case st of None \<Rightarrow> (\<lambda>_. no_object)
                | Some obj \<Rightarrow> (\<lambda>_. no_object)(caller_style := obj)),
       next_ref = Suc caller_style, calls = [] \<rparr>"

text \<open>The reference \<open>draw\<close> receives for its argument \<open>style\<close>.\<close>

definition style_ref :: "('prog, 'ax) draw_args \<Rightarrow> nat option" where
  "style_ref args = (case style args of None \<Rightarrow> None | Some _ \<Rightarrow> Some caller_style)"

subsection \<open>Running statements\<close>

text \<open>A statement runs in a world and either returns a value or raises; the world
  survives a raise.\<close>

type_synonym 'a run = "world \<Rightarrow> (exn + 'a) \<times> world"

definition pure_run :: "'a \<Rightarrow> 'a run" where
  "pure_run a w = (Inr a, w)"

definition raise :: "exn \<Rightarrow> 'a run" where
  "raise e w = (Inl e, w)"

definition and_then :: "'a run \<Rightarrow> ('a \<Rightarrow> 'b run) \<Rightarrow> 'b run" where
  "and_then m f w = (case m w of (Inl e, w') \<Rightarrow> (Inl e, w') | (Inr a, w') \<Rightarrow> f a w')"

definition log_call :: "event \<Rightarrow> unit run" where
  "log_call ev w = (Inr (), w\<lparr>calls := calls w @ [ev]\<rparr>)"

text \<open>The outcome of a call to a collaborator: what it returns, or the exception it
  raises, unchanged.\<close>

definition attempt :: "exn + 'a \<Rightarrow> 'a run" where
  "attempt r w = (r, w)"

definition allocate :: "style_obj \<Rightarrow> nat run" where
  "allocate obj w =
     (Inr (next_ref w), w\<lparr>store := (store w)(next_ref w := obj), next_ref := Suc (next_ref w)\<rparr>)"

definition deref :: "nat \<Rightarrow> style_obj run" where
  "deref a w = (Inr (store w a), w)"

definition assign :: "nat \<Rightarrow> style_obj \<Rightarrow> unit run" where
  "assign a obj w = (Inr (), w\<lparr>store := (store w)(a := obj)\<rparr>)"

subsection \<open>The function \<open>draw\<close>\<close>

text \<open>\<open>stylesheet.IQXStandard()\<close>: a new preset object.\<close>

definition new_IQXStandard :: "('prog, 'c, 'ax, 'p, 'img) collaborators \<Rightarrow> nat run" where
  "new_IQXStandard env =
     and_then (log_call New_IQXStandard) (\<lambda>_. allocate (IQXStandard env))"

text \<open>\<open>style or stylesheet.IQXStandard()\<close>: \<open>None\<close> and a mapping without items are falsy.
  The argument is the reference \<open>draw\<close> received, if any.\<close>

definition style_or_IQXStandard ::
  "('prog, 'c, 'ax, 'p, 'img) collaborators \<Rightarrow> nat option \<Rightarrow> nat run" where
  "style_or_IQXStandard env st =
     (case st of
        None \<Rightarrow> new_IQXStandard env
      | Some a \<Rightarrow> and_then (deref a) (\<lambda>obj.
          if items obj \<noteq> [] then pure_run a else new_IQXStandard env))"

text \<open>
  \<^verbatim>\<open>temp_style = stylesheet.QiskitTimelineStyle()\<close>
  \<^verbatim>\<open>temp_style.update(style or stylesheet.IQXStandard())\<close>
\<close>

definition update_stylesheet ::
  "('prog, 'c, 'ax, 'p, 'img) collaborators \<Rightarrow> ('prog, 'ax) draw_args \<Rightarrow> nat run" where
  "update_stylesheet env args =
     and_then (log_call New_QiskitTimelineStyle) (\<lambda>_.
     and_then (allocate (QiskitTimelineStyle env)) (\<lambda>temp_style.
     and_then (style_or_IQXStandard env (style_ref args)) (\<lambda>m.
     and_then (log_call (Style_update m)) (\<lambda>_.
     and_then (deref temp_style) (\<lambda>self.
     and_then (deref m) (\<lambda>arg.
     and_then (attempt (stylesheet_update env self arg)) (\<lambda>self'.
     and_then (assign temp_style self') (\<lambda>_.
     pure_run temp_style))))))))"

text \<open>
  \<^verbatim>\<open>if flag is not None: temp_style[key] = flag\<close>
\<close>

definition setitem_if_given :: "nat \<Rightarrow> string \<Rightarrow> bool option \<Rightarrow> unit run" where
  "setitem_if_given temp_style key flag =
     (case flag of
        None \<Rightarrow> pure_run ()
      | Some b \<Rightarrow>
          and_then (log_call (Style_setitem key b)) (\<lambda>_.
          and_then (deref temp_style) (\<lambda>obj.
          assign temp_style (obj\<lparr>items := AList.update key (VBool b) (items obj)\<rparr>))))"

definition update_control_properties :: "('prog, 'ax) draw_args \<Rightarrow> nat \<Rightarrow> unit run" where
  "update_control_properties args temp_style =
     and_then (setitem_if_given temp_style ''formatter.control.show_idle'' (show_idle args)) (\<lambda>_.
     and_then (setitem_if_given temp_style ''formatter.control.show_clbits'' (show_clbits args)) (\<lambda>_.
     and_then (setitem_if_given temp_style ''formatter.control.show_barriers'' (show_barriers args)) (\<lambda>_.
     setitem_if_given temp_style ''formatter.control.show_delays'' (show_delays args))))"

text \<open>
  \<^verbatim>\<open>canvas = core.DrawerCanvas(stylesheet=temp_style)\<close>
  \<^verbatim>\<open>canvas.load_program(program=program)\<close>
\<close>

definition create_canvas_and_load ::
  "('prog, 'c, 'ax, 'p, 'img) collaborators \<Rightarrow> ('prog, 'ax) draw_args \<Rightarrow> nat \<Rightarrow> 'c run" where
  "create_canvas_and_load env args temp_style =
     and_then (deref temp_style) (\<lambda>sheet.
     and_then (log_call (New_DrawerCanvas sheet)) (\<lambda>_.
     and_then (log_call Load_program) (\<lambda>_.
     attempt (load_program env (DrawerCanvas env sheet) (program args)))))"

text \<open>
  \<^verbatim>\<open>for bit in disable_bits: canvas.set_disable_bits(bit, remove=True)\<close>
\<close>

fun disable_each_bit ::
  "('prog, 'c, 'ax, 'p, 'img) collaborators \<Rightarrow> 'c \<Rightarrow> bits list \<Rightarrow> 'c run" where
  "disable_each_bit env canvas [] = pure_run canvas"
| "disable_each_bit env canvas (b # rest) =
     and_then (log_call (Set_disable_bits b True)) (\<lambda>_.
     and_then (attempt (set_disable_bits env canvas b True)) (\<lambda>canvas'.
     disable_each_bit env canvas' rest))"

text \<open>
  \<^verbatim>\<open>for label in labels: canvas.set_disable_type(label, remove=True)\<close>
\<close>

fun disable_each_type ::
  "('prog, 'c, 'ax, 'p, 'img) collaborators \<Rightarrow> 'c \<Rightarrow> data_type list \<Rightarrow> 'c run" where
  "disable_each_type env canvas [] = pure_run canvas"
| "disable_each_type env canvas (label # rest) =
     and_then (log_call (Set_disable_type label True)) (\<lambda>_.
     and_then (attempt (set_disable_type env canvas label True)) (\<lambda>canvas'.
     disable_each_type env canvas' rest))"

text \<open>The block "update configuration", up to and including \<open>canvas.update()\<close>. A tuple
  of two integers is truthy; \<open>None\<close> and the empty list are falsy.\<close>

definition update_configuration ::
  "('prog, 'c, 'ax, 'p, 'img) collaborators \<Rightarrow> ('prog, 'ax) draw_args \<Rightarrow> 'c \<Rightarrow> 'c run" where
  "update_configuration env args canvas =
     and_then (case time_range args of
                 None \<Rightarrow> pure_run canvas
               | Some (t0, t1) \<Rightarrow>
                   and_then (log_call (Set_time_range t0 t1)) (\<lambda>_.
                   attempt (set_time_range env canvas t0 t1))) (\<lambda>canvas.
     and_then (case disable_bits args of
                 None \<Rightarrow> pure_run canvas
               | Some bs \<Rightarrow>
                   if bs \<noteq> [] then disable_each_bit env canvas bs else pure_run canvas) (\<lambda>canvas.
     and_then (if \<not> show_labels args
               then disable_each_type env canvas [DELAY, GATE_PARAM, GATE_NAME]
               else pure_run canvas) (\<lambda>canvas.
     and_then (log_call Update) (\<lambda>_.
     attempt (canvas_update env canvas)))))"

text \<open>\<open>'...{name}...'.format(name=plotter)\<close>: \<open>None\<close> is formatted as \<open>None\<close>.\<close>

definition format_name :: "string option \<Rightarrow> string" where
  "format_name p = (case p of None \<Rightarrow> ''None'' | Some n \<Rightarrow> n)"

text \<open>The block "Call plotter API and generate image".\<close>

definition call_plotter ::
  "('prog, 'c, 'ax, 'p, 'img) collaborators \<Rightarrow> ('prog, 'ax) draw_args \<Rightarrow> 'c \<Rightarrow> 'p run" where
  "call_plotter env args canvas =
     (if plotter args = Some Plotter_MPL_value then
        and_then (log_call Import_MplPlotter) (\<lambda>_.
        case MplPlotter env of
          None \<Rightarrow> raise (ImportError ''Must have Matplotlib installed.'')
        | Some new \<Rightarrow>
            and_then (log_call New_MplPlotter) (\<lambda>_.
            and_then (log_call Plotter_draw) (\<lambda>_.
            attempt (plotter_draw env (new canvas (axis args))))))
      else raise (VisualizationError
             (''Plotter API '' @ format_name (plotter args) @ '' is not supported.'')))"

text \<open>
  \<^verbatim>\<open>if filename: plotter_api.save_file(filename=filename)\<close>
  \<^verbatim>\<open>return plotter_api.get_image()\<close>
\<close>

definition save_figure ::
  "('prog, 'c, 'ax, 'p, 'img) collaborators \<Rightarrow> ('prog, 'ax) draw_args \<Rightarrow> 'p \<Rightarrow> 'p run" where
  "save_figure env args plotter_api =
     (case filename args of
        None \<Rightarrow> pure_run plotter_api
      | Some f \<Rightarrow>
          if f \<noteq> [] then
            and_then (log_call (Save_file f)) (\<lambda>_. attempt (save_file env plotter_api f))
          else pure_run plotter_api)"

definition return_image ::
  "('prog, 'c, 'ax, 'p, 'img) collaborators \<Rightarrow> 'p \<Rightarrow> 'img run" where
  "return_image env plotter_api =
     and_then (log_call Get_image) (\<lambda>_. attempt (get_image env plotter_api))"

text \<open>The body of \<open>draw\<close>, block after block.\<close>

definition draw_body ::
  "('prog, 'c, 'ax, 'p, 'img) collaborators \<Rightarrow> ('prog, 'ax) draw_args \<Rightarrow> 'img run" where
  "draw_body env args =
     and_then (update_stylesheet env args) (\<lambda>temp_style.
     and_then (update_control_properties args temp_style) (\<lambda>_.
     and_then (create_canvas_and_load env args temp_style) (\<lambda>canvas.
     and_then (update_configuration env args canvas) (\<lambda>canvas.
     and_then (call_plotter env args canvas) (\<lambda>plotter_api.
     and_then (save_figure env args plotter_api) (\<lambda>plotter_api.
     return_image env plotter_api))))))"

text \<open>A call of \<open>draw\<close>: what it returns or raises, and the world it leaves.\<close>

definition draw ::
  "('prog, 'c, 'ax, 'p, 'img) collaborators \<Rightarrow> ('prog, 'ax) draw_args
     \<Rightarrow> (exn + 'img) \<times> world" where
  "draw env args = draw_body env args (initial_world (style args))"

definition result :: "(exn + 'img) \<times> world \<Rightarrow> exn + 'img" where
  "result out = fst out"

definition trace :: "(exn + 'img) \<times> world \<Rightarrow> event list" where
  "trace out = calls (snd out)"

definition final_store :: "(exn + 'img) \<times> world \<Rightarrow> nat \<Rightarrow> style_obj" where
  "final_store out = store (snd out)"

subsection \<open>What a call is expected to do\<close>

text \<open>
  The definitions of this subsection are the yardstick the theorems compare \<open>draw\<close> with;
  none of them is used by \<open>draw\<close>.
\<close>

text \<open>The address of the per-call \<open>QiskitTimelineStyle\<close> object, the first object \<open>draw\<close>
  creates, and of the \<open>IQXStandard\<close> preset, when \<open>draw\<close> creates one.\<close>

definition temp_style_ref :: nat where
  "temp_style_ref = Suc caller_style"

definition preset_ref :: nat where
  "preset_ref = Suc (Suc caller_style)"

text \<open>Python's truth value of the argument \<open>style\<close>.\<close>

definition truthy :: "style_obj option \<Rightarrow> bool" where
  "truthy st = (case st of None \<Rightarrow> False | Some obj \<Rightarrow> items obj \<noteq> [])"

text \<open>The object the resolution step reads, and what the step gives.\<close>

definition style_source ::
  "('prog, 'c, 'ax, 'p, 'img) collaborators \<Rightarrow> ('prog, 'ax) draw_args \<Rightarrow> style_obj" where
  "style_source env args =
     (case style args of
        None \<Rightarrow> IQXStandard env
      | Some obj \<Rightarrow> if items obj \<noteq> [] then obj else IQXStandard env)"

definition resolved_style ::
  "('prog, 'c, 'ax, 'p, 'img) collaborators \<Rightarrow> ('prog, 'ax) draw_args \<Rightarrow> exn + style_obj" where
  "resolved_style env args =
     stylesheet_update env (QiskitTimelineStyle env) (style_source env args)"

text \<open>A control flag given by the caller replaces the entry of the style sheet.\<close>

definition override :: "string \<Rightarrow> bool option \<Rightarrow> style_obj \<Rightarrow> style_obj" where
  "override key flag obj =
     (case flag of
        None \<Rightarrow> obj
      | Some b \<Rightarrow> obj\<lparr>items := AList.update key (VBool b) (items obj)\<rparr>)"

definition with_overrides :: "('prog, 'ax) draw_args \<Rightarrow> style_obj \<Rightarrow> style_obj" where
  "with_overrides args obj =
     override ''formatter.control.show_delays'' (show_delays args)
       (override ''formatter.control.show_barriers'' (show_barriers args)
         (override ''formatter.control.show_clbits'' (show_clbits args)
           (override ''formatter.control.show_idle'' (show_idle args) obj)))"

definition per_call_style ::
  "('prog, 'c, 'ax, 'p, 'img) collaborators \<Rightarrow> ('prog, 'ax) draw_args \<Rightarrow> style_obj" where
  "per_call_style env args =
     (case resolved_style env args of
        Inl _ \<Rightarrow> QiskitTimelineStyle env
      | Inr sheet \<Rightarrow> with_overrides args sheet)"

text \<open>The value of an entry of a style object.\<close>

definition entry :: "style_obj \<Rightarrow> string \<Rightarrow> style_value option" where
  "entry obj key = map_of (items obj) key"

text \<open>The stages of the pipeline, as sequences of calls.\<close>

definition override_call :: "string \<Rightarrow> bool option \<Rightarrow> event list" where
  "override_call key flag = (case flag of None \<Rightarrow> [] | Some b \<Rightarrow> [Style_setitem key b])"

definition resolve_stage :: "('prog, 'ax) draw_args \<Rightarrow> event list" where
  "resolve_stage args =
     New_QiskitTimelineStyle #
     (if truthy (style args) then [Style_update caller_style]
      else [New_IQXStandard, Style_update preset_ref])"

definition override_stage :: "('prog, 'ax) draw_args \<Rightarrow> event list" where
  "override_stage args =
     override_call ''formatter.control.show_idle'' (show_idle args) @
     override_call ''formatter.control.show_clbits'' (show_clbits args) @
     override_call ''formatter.control.show_barriers'' (show_barriers args) @
     override_call ''formatter.control.show_delays'' (show_delays args)"

definition load_stage :: "style_obj \<Rightarrow> event list" where
  "load_stage sheet = [New_DrawerCanvas sheet, Load_program]"

definition label_types :: "data_type list" where
  "label_types = [DELAY, GATE_PARAM, GATE_NAME]"

definition setter_stage :: "('prog, 'ax) draw_args \<Rightarrow> event list" where
  "setter_stage args =
     (case time_range args of None \<Rightarrow> [] | Some (t0, t1) \<Rightarrow> [Set_time_range t0 t1]) @
     (case disable_bits args of None \<Rightarrow> [] | Some bs \<Rightarrow> map (\<lambda>b. Set_disable_bits b True) bs) @
     (if show_labels args then [] else map (\<lambda>ty. Set_disable_type ty True) label_types)"

definition save_stage :: "('prog, 'ax) draw_args \<Rightarrow> event list" where
  "save_stage args =
     (case filename args of None \<Rightarrow> [] | Some f \<Rightarrow> if f = [] then [] else [Save_file f])"

definition render_stage ::
  "('prog, 'c, 'ax, 'p, 'img) collaborators \<Rightarrow> ('prog, 'ax) draw_args \<Rightarrow> event list" where
  "render_stage env args =
     (if plotter args \<noteq> Some Plotter_MPL_value then []
      else if MplPlotter env = None then [Import_MplPlotter]
      else [Import_MplPlotter, New_MplPlotter, Plotter_draw] @ save_stage args @ [Get_image])"

definition pipeline ::
  "('prog, 'c, 'ax, 'p, 'img) collaborators \<Rightarrow> ('prog, 'ax) draw_args \<Rightarrow> event list" where
  "pipeline env args =
     resolve_stage args @ override_stage args @ load_stage (per_call_style env args) @
     setter_stage args @ [Update] @ render_stage env args"

text \<open>The two exceptions \<open>draw\<close> raises itself.\<close>

definition unsupported :: "('prog, 'ax) draw_args \<Rightarrow> exn" where
  "unsupported args =
     VisualizationError (''Plotter API '' @ format_name (plotter args) @ '' is not supported.'')"

definition missing_matplotlib :: exn where
  "missing_matplotlib = ImportError ''Must have Matplotlib installed.''"

text \<open>
  What the collaborators compute, stage after stage, without the world: each stage is
  the result of the collaborator's method on the result of the stage before, and an
  exception ends the chain.
\<close>

definition then_do :: "exn + 'a \<Rightarrow> ('a \<Rightarrow> exn + 'b) \<Rightarrow> exn + 'b" where
  "then_do r f = (case r of Inl e \<Rightarrow> Inl e | Inr a \<Rightarrow> f a)"

text \<open>A method applied for each element of a list in turn, until one call raises.\<close>

definition in_turn :: "('c \<Rightarrow> 'x \<Rightarrow> exn + 'c) \<Rightarrow> 'x list \<Rightarrow> 'c \<Rightarrow> exn + 'c" where
  "in_turn f xs c = fold (\<lambda>x r. then_do r (\<lambda>c. f c x)) xs (Inr c)"

text \<open>The three setters, on a canvas.\<close>

definition set_range ::
  "('prog, 'c, 'ax, 'p, 'img) collaborators \<Rightarrow> ('prog, 'ax) draw_args \<Rightarrow> 'c \<Rightarrow> exn + 'c" where
  "set_range env args c =
     (case time_range args of None \<Rightarrow> Inr c | Some (t0, t1) \<Rightarrow> set_time_range env c t0 t1)"

definition hide_bits ::
  "('prog, 'c, 'ax, 'p, 'img) collaborators \<Rightarrow> ('prog, 'ax) draw_args \<Rightarrow> 'c \<Rightarrow> exn + 'c" where
  "hide_bits env args c =
     (case disable_bits args of
        None \<Rightarrow> Inr c
      | Some bs \<Rightarrow> in_turn (\<lambda>c b. set_disable_bits env c b True) bs c)"

definition hide_labels ::
  "('prog, 'c, 'ax, 'p, 'img) collaborators \<Rightarrow> ('prog, 'ax) draw_args \<Rightarrow> 'c \<Rightarrow> exn + 'c" where
  "hide_labels env args c =
     (if show_labels args then Inr c
      else in_turn (\<lambda>c ty. set_disable_type env c ty True) label_types c)"

text \<open>The canvas with the program loaded; after the time range and the bits; after the
  labels; after \<open>update\<close>.\<close>

definition loaded_canvas ::
  "('prog, 'c, 'ax, 'p, 'img) collaborators \<Rightarrow> ('prog, 'ax) draw_args \<Rightarrow> exn + 'c" where
  "loaded_canvas env args =
     then_do (resolved_style env args) (\<lambda>sheet.
       load_program env (DrawerCanvas env (with_overrides args sheet)) (program args))"

definition bits_canvas ::
  "('prog, 'c, 'ax, 'p, 'img) collaborators \<Rightarrow> ('prog, 'ax) draw_args \<Rightarrow> exn + 'c" where
  "bits_canvas env args =
     then_do (loaded_canvas env args) (\<lambda>c. then_do (set_range env args c) (hide_bits env args))"

definition labelled_canvas ::
  "('prog, 'c, 'ax, 'p, 'img) collaborators \<Rightarrow> ('prog, 'ax) draw_args \<Rightarrow> exn + 'c" where
  "labelled_canvas env args = then_do (bits_canvas env args) (hide_labels env args)"

definition finalized_canvas ::
  "('prog, 'c, 'ax, 'p, 'img) collaborators \<Rightarrow> ('prog, 'ax) draw_args \<Rightarrow> exn + 'c" where
  "finalized_canvas env args = then_do (labelled_canvas env args) (canvas_update env)"

text \<open>The plotter on a canvas: selected by name, imported, constructed on the canvas and
  drawn; then the figure saved when a file name is given; then the image.\<close>

definition render ::
  "('prog, 'c, 'ax, 'p, 'img) collaborators \<Rightarrow> ('prog, 'ax) draw_args \<Rightarrow> 'c \<Rightarrow> exn + 'p" where
  "render env args c =
     (if plotter args = Some Plotter_MPL_value then
        (case MplPlotter env of
           None \<Rightarrow> Inl missing_matplotlib
         | Some new \<Rightarrow> plotter_draw env (new c (axis args)))
      else Inl (unsupported args))"

definition persist ::
  "('prog, 'c, 'ax, 'p, 'img) collaborators \<Rightarrow> ('prog, 'ax) draw_args \<Rightarrow> 'p \<Rightarrow> exn + 'p" where
  "persist env args p =
     (case filename args of None \<Rightarrow> Inr p | Some f \<Rightarrow> if f = [] then Inr p else save_file env p f)"

definition after_update ::
  "('prog, 'c, 'ax, 'p, 'img) collaborators \<Rightarrow> ('prog, 'ax) draw_args \<Rightarrow> 'c \<Rightarrow> exn + 'img" where
  "after_update env args c =
     then_do (render env args c) (\<lambda>p. then_do (persist env args p) (get_image env))"

definition rendered_plotter ::
  "('prog, 'c, 'ax, 'p, 'img) collaborators \<Rightarrow> ('prog, 'ax) draw_args \<Rightarrow> exn + 'p" where
  "rendered_plotter env args = then_do (finalized_canvas env args) (render env args)"

text \<open>Kinds of calls.\<close>

definition is_setitem :: "event \<Rightarrow> bool" where
  "is_setitem ev = (case ev of Style_setitem _ _ \<Rightarrow> True | _ \<Rightarrow> False)"

definition is_style_update :: "event \<Rightarrow> bool" where
  "is_style_update ev = (case ev of Style_update _ \<Rightarrow> True | _ \<Rightarrow> False)"

definition is_disable_type :: "event \<Rightarrow> bool" where
  "is_disable_type ev = (case ev of Set_disable_type _ _ \<Rightarrow> True | _ \<Rightarrow> False)"

definition is_save_file :: "event \<Rightarrow> bool" where
  "is_save_file ev = (case ev of Save_file _ \<Rightarrow> True | _ \<Rightarrow> False)"

definition is_plotter_call :: "event \<Rightarrow> bool" where
  "is_plotter_call ev =
     (case ev of Import_MplPlotter \<Rightarrow> True | New_MplPlotter \<Rightarrow> True | Plotter_draw \<Rightarrow> True
      | Save_file _ \<Rightarrow> True | Get_image \<Rightarrow> True | _ \<Rightarrow> False)"

text \<open>
  A statement \<open>m\<close> yields \<open>r\<close> along the plan \<open>plan\<close>: whatever the world, it changes only
  the list of calls and ends with \<open>r\<close>; it makes all calls of the plan when it returns,
  and an initial part of them when it raises.
\<close>

definition yields :: "'a run \<Rightarrow> exn + 'a \<Rightarrow> event list \<Rightarrow> bool" where
  "yields m r plan \<longleftrightarrow>
     (\<exists>evs. (\<forall>w. m w = (r, w\<lparr>calls := calls w @ evs\<rparr>)) \<and> prefix evs plan \<and>
        (\<not> isl r \<longrightarrow> evs = plan))"

text \<open>
  The statements after the canvas is loaded, the calls made after \<open>update\<close> has returned
  the canvas \<open>c\<close>, and the worlds \<open>draw\<close> is in after the style is resolved and after
  \<open>load_program\<close> is called: names for the proofs.
\<close>

definition after_update_calls ::
  "('prog, 'c, 'ax, 'p, 'img) collaborators \<Rightarrow> ('prog, 'ax) draw_args \<Rightarrow> 'c \<Rightarrow> event list" where
  "after_update_calls env args c =
     (if plotter args \<noteq> Some Plotter_MPL_value then []
      else case MplPlotter env of
        None \<Rightarrow> [Import_MplPlotter]
      | Some new \<Rightarrow>
          [Import_MplPlotter, New_MplPlotter, Plotter_draw] @
          (case plotter_draw env (new c (axis args)) of
             Inl _ \<Rightarrow> []
           | Inr p \<Rightarrow> save_stage args @
                      (case persist env args p of Inl _ \<Rightarrow> [] | Inr _ \<Rightarrow> [Get_image])))"

definition configure_and_plot ::
  "('prog, 'c, 'ax, 'p, 'img) collaborators \<Rightarrow> ('prog, 'ax) draw_args \<Rightarrow> 'c \<Rightarrow> 'img run" where
  "configure_and_plot env args canvas =
     and_then (update_configuration env args canvas) (\<lambda>canvas.
     and_then (call_plotter env args canvas) (\<lambda>plotter_api.
     and_then (save_figure env args plotter_api) (\<lambda>plotter_api.
     return_image env plotter_api)))"

definition head_world ::
  "('prog, 'c, 'ax, 'p, 'img) collaborators \<Rightarrow> ('prog, 'ax) draw_args \<Rightarrow> world" where
  "head_world env args =
     \<lparr> store = (if truthy (style args)
                then (store (initial_world (style args)))(temp_style_ref := QiskitTimelineStyle env)
                else (store (initial_world (style args)))
                       (temp_style_ref := QiskitTimelineStyle env, preset_ref := IQXStandard env)),
       next_ref = (if truthy (style args) then preset_ref else Suc preset_ref),
       calls = resolve_stage args \<rparr>"

definition loaded_world ::
  "('prog, 'c, 'ax, 'p, 'img) collaborators \<Rightarrow> ('prog, 'ax) draw_args \<Rightarrow> style_obj \<Rightarrow> world" where
  "loaded_world env args sheet =
     (head_world env args)
       \<lparr> store := (store (head_world env args))(temp_style_ref := with_overrides args sheet),
         calls := resolve_stage args @ override_stage args @
                  load_stage (with_overrides args sheet) \<rparr>"

subsection \<open>Collaborators for running \<open>draw\<close> on concrete arguments\<close>

text \<open>
  Modelled from the spec: the canvas, the style resolver and the plotter are not part of
  the sources. These stand-ins keep what they are given: a canvas is the list of calls
  made on it, a plotter likewise, and the image is the plotter's list. A program is
  \<open>True\<close> when it is scheduled; loading an unscheduled program raises the package's
  \<open>VisualizationError\<close>. The resolver merges the entries of its argument into the receiver.
\<close>

definition control_defaults :: style_dict where
  "control_defaults =
     [(''formatter.control.show_idle'', VBool True),
      (''formatter.control.show_clbits'', VBool True),
      (''formatter.control.show_barriers'', VBool True),
      (''formatter.control.show_delays'', VBool True)]"

definition merge_items :: "style_dict \<Rightarrow> style_dict \<Rightarrow> style_dict" where
  "merge_items self m = fold (\<lambda>(k, v). AList.update k v) m self"

definition recorder :: "(bool, event list, unit, event list, event list) collaborators" where
  "recorder =
     \<lparr> QiskitTimelineStyle = \<lparr> class_name = ''QiskitTimelineStyle'', items = control_defaults \<rparr>,
       IQXStandard = \<lparr> class_name = ''IQXStandard'',
                       items = [(''formatter.general.fig_width'', VInt 14)] \<rparr>,
       stylesheet_update = (\<lambda>self m. Inr (self\<lparr>items := merge_items (items self) (items m)\<rparr>)),
       DrawerCanvas = (\<lambda>sheet. [New_DrawerCanvas sheet]),
       load_program = (\<lambda>c scheduled.
          if scheduled then Inr (c @ [Load_program])
          else Inl (VisualizationError ''Input program is not scheduled'')),
       set_time_range = (\<lambda>c t0 t1. Inr (c @ [Set_time_range t0 t1])),
       set_disable_bits = (\<lambda>c b remove. Inr (c @ [Set_disable_bits b remove])),
       set_disable_type = (\<lambda>c ty remove. Inr (c @ [Set_disable_type ty remove])),
       canvas_update = (\<lambda>c. Inr (c @ [Update])),
       MplPlotter = Some (\<lambda>c ax. c @ [New_MplPlotter]),
       plotter_draw = (\<lambda>p. Inr (p @ [Plotter_draw])),
       save_file = (\<lambda>p f. Inr (p @ [Save_file f])),
       get_image = (\<lambda>p. Inr p) \<rparr>"

text \<open>The same collaborators in an environment without Matplotlib.\<close>

definition recorder_without_matplotlib ::
  "(bool, event list, unit, event list, event list) collaborators" where
  "recorder_without_matplotlib = recorder\<lparr>MplPlotter := None\<rparr>"

text \<open>Arguments used in the examples.\<close>

definition plain_call :: "(bool, unit) draw_args" where
  "plain_call = default_args True"

definition busy_call :: "(bool, unit) draw_args" where
  "busy_call = (default_args True)
     \<lparr> style := Some \<lparr> class_name = ''dict'',
                       items = [(''formatter.control.show_idle'', VBool True),
                                (''formatter.general.fig_width'', VInt 16)] \<rparr>,
       time_range := Some (0, 100),
       disable_bits := Some [Qubit 1, Clbit 0],
       show_idle := Some False,
       show_labels := False,
       filename := Some ''timeline.png'' \<rparr>"

definition svg2_call :: "(bool, unit) draw_args" where
  "svg2_call = (default_args True)\<lparr>plotter := Some ''svg2''\<rparr>"

definition preset_call :: "(bool, unit) draw_args" where
  "preset_call = (default_args True)
     \<lparr> style := Some \<lparr> class_name = ''IQXSimple'',
                       items = [(''formatter.general.fig_width'', VInt 14),
                                (''formatter.control.show_idle'', VBool False)] \<rparr> \<rparr>"

definition empty_style_call :: "(bool, unit) draw_args" where
  "empty_style_call = (default_args True)\<lparr> style := Some \<lparr> class_name = ''dict'', items = [] \<rparr> \<rparr>"

definition unscheduled_call :: "(bool, unit) draw_args" where
  "unscheduled_call = default_args False"

definition svg2_unscheduled_call :: "(bool, unit) draw_args" where
  "svg2_unscheduled_call = (default_args False)\<lparr>plotter := Some ''svg2''\<rparr>"

section \<open>Properties\<close>

subsection \<open>Statements, their results and the calls they make\<close>

lemmas run_defs = pure_run_def raise_def and_then_def log_call_def attempt_def allocate_def
  deref_def assign_def

lemma and_then_assoc: "and_then (and_then m f) g = and_then m (\<lambda>a. and_then (f a) g)"
  by (rule ext) (simp add: and_then_def split: prod.splits sum.splits)

lemma and_then_raise: "and_then (raise e) f = raise e"
  by (rule ext) (simp add: and_then_def raise_def)

lemma then_do_simps [simp]: "then_do (Inl e) f = Inl e" "then_do (Inr a) f = f a"
  by (simp_all add: then_do_def)

lemma then_do_Inr:
  "then_do r f = Inr b \<longleftrightarrow> (\<exists>a. r = Inr a \<and> f a = Inr b)"
  by (cases r) simp_all

lemma in_turn_simps [simp]:
  "in_turn f [] c = Inr c"
  "in_turn f (x # xs) c = then_do (f c x) (in_turn f xs)"
proof -
  show "in_turn f [] c = Inr c" by (simp add: in_turn_def)
  have raised: "fold (\<lambda>x r. then_do r (\<lambda>c. f c x)) ys (Inl e) = Inl e" for ys e
    by (induction ys) simp_all
  show "in_turn f (x # xs) c = then_do (f c x) (in_turn f xs)"
    by (cases "f c x") (simp_all add: in_turn_def raised)
qed

lemma yieldsI:
  assumes "\<And>w. m w = (r, w\<lparr>calls := calls w @ evs\<rparr>)"
      and "prefix evs plan" and "\<not> isl r \<Longrightarrow> evs = plan"
  shows "yields m r plan"
  using assms unfolding yields_def by blast

lemma yields_pure: "yields (pure_run a) (Inr a) []"
  by (rule yieldsI [where evs = "[]"]) (simp_all add: pure_run_def)

lemma yields_call: "yields (and_then (log_call ev) (\<lambda>_. attempt x)) x [ev]"
  by (rule yieldsI [where evs = "[ev]"]) (simp_all add: run_defs)

lemma yields_step:
  assumes "\<And>a. x = Inr a \<Longrightarrow> yields (k a) (g a) p"
  shows "yields (and_then (log_call ev) (\<lambda>_. and_then (attempt x) k)) (then_do x g) (ev # p)"
proof (cases x)
  case (Inl e)
  then show ?thesis
    by (intro yieldsI [where evs = "[ev]"]) (simp_all add: run_defs)
next
  case (Inr a)
  from assms [OF Inr] obtain evs where
    run: "\<And>w. k a w = (g a, w\<lparr>calls := calls w @ evs\<rparr>)"
    and evs: "prefix evs p" "\<not> isl (g a) \<longrightarrow> evs = p"
    unfolding yields_def by blast
  from Inr evs show ?thesis
    by (intro yieldsI [where evs = "ev # evs"]) (simp_all add: run_defs run)
qed

lemma yields_and_then:
  assumes m: "yields m r1 p1"
      and f: "\<And>a. r1 = Inr a \<Longrightarrow> yields (f a) (g a) p2"
  shows "yields (and_then m f) (then_do r1 g) (p1 @ p2)"
proof -
  from m obtain evs1 where run1: "\<And>w. m w = (r1, w\<lparr>calls := calls w @ evs1\<rparr>)"
    and evs1: "prefix evs1 p1" "\<not> isl r1 \<longrightarrow> evs1 = p1"
    unfolding yields_def by blast
  show ?thesis
  proof (cases r1)
    case (Inl e)
    with evs1 show ?thesis
      by (intro yieldsI [where evs = evs1]) (simp_all add: and_then_def run1)
  next
    case (Inr a)
    from f [OF Inr] obtain evs2 where run2: "\<And>w. f a w = (g a, w\<lparr>calls := calls w @ evs2\<rparr>)"
      and evs2: "prefix evs2 p2" "\<not> isl (g a) \<longrightarrow> evs2 = p2"
      unfolding yields_def by blast
    from Inr evs1 evs2 show ?thesis
      by (intro yieldsI [where evs = "p1 @ evs2"]) (simp_all add: and_then_def run1 run2)
  qed
qed

lemma disable_each_bit_yields:
  "yields (disable_each_bit env canvas bs)
     (in_turn (\<lambda>c b. set_disable_bits env c b True) bs canvas)
     (map (\<lambda>b. Set_disable_bits b True) bs)"
proof (induction bs arbitrary: canvas)
  case Nil
  show ?case by (simp add: yields_pure)
next
  case (Cons b bs)
  show ?case
    unfolding disable_each_bit.simps in_turn_simps list.map
    by (rule yields_step) (rule Cons.IH)
qed

lemma disable_each_type_yields:
  "yields (disable_each_type env canvas tys)
     (in_turn (\<lambda>c ty. set_disable_type env c ty True) tys canvas)
     (map (\<lambda>ty. Set_disable_type ty True) tys)"
proof (induction tys arbitrary: canvas)
  case Nil
  show ?case by (simp add: yields_pure)
next
  case (Cons ty tys)
  show ?case
    unfolding disable_each_type.simps in_turn_simps list.map
    by (rule yields_step) (rule Cons.IH)
qed

lemma time_range_yields:
  "yields (case time_range args of
             None \<Rightarrow> pure_run canvas
           | Some (t0, t1) \<Rightarrow>
               and_then (log_call (Set_time_range t0 t1)) (\<lambda>_.
               attempt (set_time_range env canvas t0 t1)))
     (set_range env args canvas)
     (case time_range args of None \<Rightarrow> [] | Some (t0, t1) \<Rightarrow> [Set_time_range t0 t1])"
  by (auto simp: set_range_def yields_pure yields_call split: option.splits)

lemma disable_bits_yields:
  "yields (case disable_bits args of
             None \<Rightarrow> pure_run canvas
           | Some bs \<Rightarrow> if bs \<noteq> [] then disable_each_bit env canvas bs else pure_run canvas)
     (hide_bits env args canvas)
     (case disable_bits args of None \<Rightarrow> [] | Some bs \<Rightarrow> map (\<lambda>b. Set_disable_bits b True) bs)"
  by (auto simp: hide_bits_def yields_pure disable_each_bit_yields split: option.splits)

lemma show_labels_yields:
  "yields (if \<not> show_labels args
           then disable_each_type env canvas [DELAY, GATE_PARAM, GATE_NAME]
           else pure_run canvas)
     (hide_labels env args canvas)
     (if show_labels args then [] else map (\<lambda>ty. Set_disable_type ty True) label_types)"
  using disable_each_type_yields [of env canvas "[DELAY, GATE_PARAM, GATE_NAME]"]
  by (simp add: hide_labels_def yields_pure label_types_def)

lemma setters_yield:
  "yields
     (and_then (case time_range args of
                  None \<Rightarrow> pure_run canvas
                | Some (t0, t1) \<Rightarrow>
                    and_then (log_call (Set_time_range t0 t1)) (\<lambda>_.
                    attempt (set_time_range env canvas t0 t1))) (\<lambda>canvas.
      and_then (case disable_bits args of
                  None \<Rightarrow> pure_run canvas
                | Some bs \<Rightarrow>
                    if bs \<noteq> [] then disable_each_bit env canvas bs else pure_run canvas) (\<lambda>canvas.
      if \<not> show_labels args
      then disable_each_type env canvas [DELAY, GATE_PARAM, GATE_NAME]
      else pure_run canvas)))
     (then_do (set_range env args canvas) (\<lambda>c.
        then_do (hide_bits env args c) (hide_labels env args)))
     (setter_stage args)"
  unfolding setter_stage_def
  by (intro yields_and_then time_range_yields disable_bits_yields show_labels_yields)

lemma update_configuration_run:
  "\<exists>evs. prefix evs (setter_stage args) \<and>
     (\<forall>w. update_configuration env args canvas w =
       (case then_do (set_range env args canvas) (\<lambda>c.
               then_do (hide_bits env args c) (hide_labels env args)) of
          Inl e \<Rightarrow> (Inl e, w\<lparr>calls := calls w @ evs\<rparr>)
        | Inr c \<Rightarrow> (canvas_update env c, w\<lparr>calls := calls w @ setter_stage args @ [Update]\<rparr>)))"
proof -
  from setters_yield [where args = args and canvas = canvas and env = env] obtain evs where
    run: "\<And>w. and_then (case time_range args of
                  None \<Rightarrow> pure_run canvas
                | Some (t0, t1) \<Rightarrow>
                    and_then (log_call (Set_time_range t0 t1)) (\<lambda>_.
                    attempt (set_time_range env canvas t0 t1))) (\<lambda>canvas.
      and_then (case disable_bits args of
                  None \<Rightarrow> pure_run canvas
                | Some bs \<Rightarrow>
                    if bs \<noteq> [] then disable_each_bit env canvas bs else pure_run canvas) (\<lambda>canvas.
      if \<not> show_labels args
      then disable_each_type env canvas [DELAY, GATE_PARAM, GATE_NAME]
      else pure_run canvas)) w =
      (then_do (set_range env args canvas) (\<lambda>c.
        then_do (hide_bits env args c) (hide_labels env args)), w\<lparr>calls := calls w @ evs\<rparr>)"
    and evs: "prefix evs (setter_stage args)"
      "\<not> isl (then_do (set_range env args canvas) (\<lambda>c.
        then_do (hide_bits env args c) (hide_labels env args))) \<longrightarrow> evs = setter_stage args"
    unfolding yields_def by blast
  have "update_configuration env args canvas =
      and_then (and_then (case time_range args of
                  None \<Rightarrow> pure_run canvas
                | Some (t0, t1) \<Rightarrow>
                    and_then (log_call (Set_time_range t0 t1)) (\<lambda>_.
                    attempt (set_time_range env canvas t0 t1))) (\<lambda>canvas.
      and_then (case disable_bits args of
                  None \<Rightarrow> pure_run canvas
                | Some bs \<Rightarrow>
                    if bs \<noteq> [] then disable_each_bit env canvas bs else pure_run canvas) (\<lambda>canvas.
      if \<not> show_labels args
      then disable_each_type env canvas [DELAY, GATE_PARAM, GATE_NAME]
      else pure_run canvas)))
      (\<lambda>canvas. and_then (log_call Update) (\<lambda>_. attempt (canvas_update env canvas)))"
    by (simp add: update_configuration_def and_then_assoc)
  then have "\<forall>w. update_configuration env args canvas w =
       (case then_do (set_range env args canvas) (\<lambda>c.
               then_do (hide_bits env args c) (hide_labels env args)) of
          Inl e \<Rightarrow> (Inl e, w\<lparr>calls := calls w @ evs\<rparr>)
        | Inr c \<Rightarrow> (canvas_update env c, w\<lparr>calls := calls w @ setter_stage args @ [Update]\<rparr>))"
    using evs(2)
    by (simp add: and_then_def [of "and_then _ _"] run and_then_def [of "log_call _"]
          log_call_def attempt_def split: sum.splits)
  with evs(1) show ?thesis by blast
qed

lemma after_update_run:
  "and_then (call_plotter env args canvas) (\<lambda>plotter_api.
     and_then (save_figure env args plotter_api) (\<lambda>plotter_api.
     return_image env plotter_api)) w =
   (after_update env args canvas, w\<lparr>calls := calls w @ after_update_calls env args canvas\<rparr>)"
  by (simp add: call_plotter_def save_figure_def return_image_def run_defs after_update_def
        after_update_calls_def render_def persist_def save_stage_def unsupported_def
        missing_matplotlib_def then_do_def
      split: option.splits sum.splits)

subsection \<open>The body of \<open>draw\<close> in closed form\<close>

lemma configure_and_plot_run:
  "\<exists>evs. prefix evs (setter_stage args) \<and>
     (\<forall>w. configure_and_plot env args canvas w =
       (case then_do (set_range env args canvas) (\<lambda>c.
               then_do (hide_bits env args c) (hide_labels env args)) of
          Inl e \<Rightarrow> (Inl e, w\<lparr>calls := calls w @ evs\<rparr>)
        | Inr c \<Rightarrow>
            (case canvas_update env c of
               Inl e \<Rightarrow> (Inl e, w\<lparr>calls := calls w @ setter_stage args @ [Update]\<rparr>)
             | Inr c' \<Rightarrow>
                 (after_update env args c',
                  w\<lparr>calls := calls w @ setter_stage args @ [Update] @
                                after_update_calls env args c'\<rparr>))))"
proof -
  from update_configuration_run [of args env canvas] obtain evs where
    evs: "prefix evs (setter_stage args)"
    and run: "\<And>w. update_configuration env args canvas w =
       (case then_do (set_range env args canvas) (\<lambda>c.
               then_do (hide_bits env args c) (hide_labels env args)) of
          Inl e \<Rightarrow> (Inl e, w\<lparr>calls := calls w @ evs\<rparr>)
        | Inr c \<Rightarrow> (canvas_update env c, w\<lparr>calls := calls w @ setter_stage args @ [Update]\<rparr>))"
    by blast
  have "\<forall>w. configure_and_plot env args canvas w =
       (case then_do (set_range env args canvas) (\<lambda>c.
               then_do (hide_bits env args c) (hide_labels env args)) of
          Inl e \<Rightarrow> (Inl e, w\<lparr>calls := calls w @ evs\<rparr>)
        | Inr c \<Rightarrow>
            (case canvas_update env c of
               Inl e \<Rightarrow> (Inl e, w\<lparr>calls := calls w @ setter_stage args @ [Update]\<rparr>)
             | Inr c' \<Rightarrow>
                 (after_update env args c',
                  w\<lparr>calls := calls w @ setter_stage args @ [Update] @
                                after_update_calls env args c'\<rparr>)))"
    by (simp add: configure_and_plot_def and_then_def [of "update_configuration env args canvas"]
          run after_update_run split: sum.splits)
  with evs show ?thesis by blast
qed

lemma update_stylesheet_initial:
  "update_stylesheet env args (initial_world (style args)) =
     (case resolved_style env args of
        Inl e \<Rightarrow> (Inl e, head_world env args)
      | Inr sheet \<Rightarrow>
          (Inr temp_style_ref,
           (head_world env args)
             \<lparr>store := (store (head_world env args))(temp_style_ref := sheet)\<rparr>))"
  by (simp add: update_stylesheet_def style_or_IQXStandard_def new_IQXStandard_def run_defs
        style_ref_def initial_world_def head_world_def resolved_style_def style_source_def
        resolve_stage_def truthy_def temp_style_ref_def preset_ref_def caller_style_def
      split: option.splits sum.splits)

lemma setitem_if_given_eq:
  "setitem_if_given t key flag w =
     (Inr (), w\<lparr>store := (store w)(t := override key flag (store w t)),
               calls := calls w @ override_call key flag\<rparr>)"
  by (cases flag) (simp_all add: setitem_if_given_def run_defs override_def override_call_def)

lemma update_control_properties_eq:
  "update_control_properties args t w =
     (Inr (), w\<lparr>store := (store w)(t := with_overrides args (store w t)),
               calls := calls w @ override_stage args\<rparr>)"
  by (simp add: update_control_properties_def and_then_def setitem_if_given_eq
        with_overrides_def override_stage_def)

lemma create_canvas_and_load_eq:
  "create_canvas_and_load env args t w =
     (load_program env (DrawerCanvas env (store w t)) (program args),
      w\<lparr>calls := calls w @ load_stage (store w t)\<rparr>)"
  by (simp add: create_canvas_and_load_def run_defs load_stage_def)

lemma draw_body_eq:
  "draw_body env args =
     and_then (update_stylesheet env args) (\<lambda>temp_style.
     and_then (update_control_properties args temp_style) (\<lambda>_.
     and_then (create_canvas_and_load env args temp_style) (configure_and_plot env args)))"
proof -
  have "configure_and_plot env args =
          (\<lambda>canvas. and_then (update_configuration env args canvas) (\<lambda>canvas.
             and_then (call_plotter env args canvas) (\<lambda>plotter_api.
             and_then (save_figure env args plotter_api) (\<lambda>plotter_api.
             return_image env plotter_api))))"
    by (rule ext) (simp add: configure_and_plot_def)
  then show ?thesis by (simp add: draw_body_def)
qed

lemma draw_eq:
  "draw env args =
     (case resolved_style env args of
        Inl e \<Rightarrow> (Inl e, head_world env args)
      | Inr sheet \<Rightarrow>
          (case load_program env (DrawerCanvas env (with_overrides args sheet)) (program args) of
             Inl e \<Rightarrow> (Inl e, loaded_world env args sheet)
           | Inr canvas \<Rightarrow> configure_and_plot env args canvas (loaded_world env args sheet)))"
  by (simp add: draw_def draw_body_eq and_then_def [of "update_stylesheet env args"]
        and_then_def [of "update_control_properties args t" for t]
        and_then_def [of "create_canvas_and_load env args t" for t]
        update_stylesheet_initial update_control_properties_eq create_canvas_and_load_eq
        loaded_world_def head_world_def
      split: sum.splits)

lemma per_call_style_resolved:
  "resolved_style env args = Inr sheet \<Longrightarrow> per_call_style env args = with_overrides args sheet"
  by (simp add: per_call_style_def)

lemma draw_cases [case_names resolve_fails load_fails setter_fails update_fails updated]:
  fixes env :: "('prog, 'c, 'ax, 'p, 'img) collaborators"
  obtains
    (resolve_fails) e where
      "resolved_style env args = Inl e"
      "result (draw env args) = Inl e"
      "trace (draw env args) = resolve_stage args"
      "final_store (draw env args) = store (head_world env args)"
  | (load_fails) sheet e where
      "resolved_style env args = Inr sheet"
      "loaded_canvas env args = Inl e"
      "result (draw env args) = Inl e"
      "trace (draw env args) =
         resolve_stage args @ override_stage args @ load_stage (with_overrides args sheet)"
      "final_store (draw env args) = store (loaded_world env args sheet)"
  | (setter_fails) sheet c0 e evs where
      "resolved_style env args = Inr sheet"
      "loaded_canvas env args = Inr c0"
      "labelled_canvas env args = Inl e"
      "result (draw env args) = Inl e"
      "trace (draw env args) =
         resolve_stage args @ override_stage args @ load_stage (with_overrides args sheet) @ evs"
      "prefix evs (setter_stage args)"
      "final_store (draw env args) = store (loaded_world env args sheet)"
  | (update_fails) sheet c0 c1 e where
      "resolved_style env args = Inr sheet"
      "loaded_canvas env args = Inr c0"
      "labelled_canvas env args = Inr c1"
      "canvas_update env c1 = Inl e"
      "result (draw env args) = Inl e"
      "trace (draw env args) =
         resolve_stage args @ override_stage args @ load_stage (with_overrides args sheet) @
         setter_stage args @ [Update]"
      "final_store (draw env args) = store (loaded_world env args sheet)"
  | (updated) sheet c0 c1 c where
      "resolved_style env args = Inr sheet"
      "loaded_canvas env args = Inr c0"
      "labelled_canvas env args = Inr c1"
      "canvas_update env c1 = Inr c"
      "result (draw env args) = after_update env args c"
      "trace (draw env args) =
         resolve_stage args @ override_stage args @ load_stage (with_overrides args sheet) @
         setter_stage args @ [Update] @ after_update_calls env args c"
      "final_store (draw env args) = store (loaded_world env args sheet)"
proof (cases "resolved_style env args")
  case (Inl e)
  then show ?thesis
    by (intro resolve_fails [of e])
       (simp_all add: draw_eq result_def trace_def final_store_def head_world_def)
next
  case resolved: (Inr sheet)
  show ?thesis
  proof (cases "load_program env (DrawerCanvas env (with_overrides args sheet)) (program args)")
    case (Inl e)
    with resolved show ?thesis
      by (intro load_fails [of sheet e])
         (simp_all add: draw_eq result_def trace_def final_store_def loaded_world_def
            loaded_canvas_def)
  next
    case loaded: (Inr c0)
    from configure_and_plot_run [of args env c0] obtain evs where
      evs: "prefix evs (setter_stage args)"
      and run: "\<And>w. configure_and_plot env args c0 w =
       (case then_do (set_range env args c0) (\<lambda>c.
               then_do (hide_bits env args c) (hide_labels env args)) of
          Inl e \<Rightarrow> (Inl e, w\<lparr>calls := calls w @ evs\<rparr>)
        | Inr c \<Rightarrow>
            (case canvas_update env c of
               Inl e \<Rightarrow> (Inl e, w\<lparr>calls := calls w @ setter_stage args @ [Update]\<rparr>)
             | Inr c' \<Rightarrow>
                 (after_update env args c',
                  w\<lparr>calls := calls w @ setter_stage args @ [Update] @
                                after_update_calls env args c'\<rparr>)))"
      by blast
    from resolved loaded have c0: "loaded_canvas env args = Inr c0"
      by (simp add: loaded_canvas_def)
    then have lab: "labelled_canvas env args =
        then_do (set_range env args c0) (\<lambda>c.
               then_do (hide_bits env args c) (hide_labels env args))"
      by (cases "set_range env args c0") (simp_all add: labelled_canvas_def bits_canvas_def)
    show ?thesis
    proof (cases "labelled_canvas env args")
      case (Inl e)
      with lab have setters: "then_do (set_range env args c0) (\<lambda>c.
               then_do (hide_bits env args c) (hide_labels env args)) = Inl e"
        by simp
      with resolved loaded c0 Inl evs show ?thesis
        by (intro setter_fails [of sheet c0 e evs])
           (simp_all add: draw_eq run result_def trace_def final_store_def loaded_world_def)
    next
      case labelled: (Inr c1)
      with lab have setters: "then_do (set_range env args c0) (\<lambda>c.
               then_do (hide_bits env args c) (hide_labels env args)) = Inr c1"
        by simp
      show ?thesis
      proof (cases "canvas_update env c1")
        case (Inl e)
        with resolved loaded c0 setters labelled show ?thesis
          by (intro update_fails [of sheet c0 c1 e])
             (simp_all add: draw_eq run result_def trace_def final_store_def loaded_world_def)
      next
        case (Inr c)
        with resolved loaded c0 setters labelled show ?thesis
          by (intro updated [of sheet c0 c1 c])
             (simp_all add: draw_eq run result_def trace_def final_store_def loaded_world_def)
      qed
    qed
  qed
qed

subsection \<open>What each stage contains\<close>

lemma resolve_stage_kinds:
  "ev \<in> set (resolve_stage args) \<Longrightarrow>
     ev = New_QiskitTimelineStyle \<or> ev = New_IQXStandard \<or> is_style_update ev"
  by (auto simp: resolve_stage_def is_style_update_def split: if_splits)

lemma override_stage_kinds: "ev \<in> set (override_stage args) \<Longrightarrow> is_setitem ev"
  by (auto simp: override_stage_def override_call_def is_setitem_def split: option.splits)

lemma load_stage_kinds:
  "ev \<in> set (load_stage sheet) \<Longrightarrow> ev = New_DrawerCanvas sheet \<or> ev = Load_program"
  by (auto simp: load_stage_def)

lemma setter_stage_kinds:
  "ev \<in> set (setter_stage args) \<Longrightarrow>
     (\<exists>t0 t1. ev = Set_time_range t0 t1) \<or> (\<exists>b. ev = Set_disable_bits b True) \<or>
     is_disable_type ev"
  by (auto simp: setter_stage_def is_disable_type_def split: option.splits if_splits)

lemma save_stage_kinds:
  "ev \<in> set (save_stage args) \<Longrightarrow> \<exists>f. ev = Save_file f \<and> filename args = Some f \<and> f \<noteq> []"
  by (auto simp: save_stage_def split: option.splits if_splits)

lemma render_stage_kinds: "ev \<in> set (render_stage env args) \<Longrightarrow> is_plotter_call ev"
  by (auto simp: render_stage_def is_plotter_call_def dest!: save_stage_kinds split: if_splits)

lemma after_update_calls_prefix:
  "prefix (after_update_calls env args c) (render_stage env args)"
  by (auto simp: after_update_calls_def render_stage_def split: option.splits sum.splits)

lemma after_update_calls_kinds:
  "ev \<in> set (after_update_calls env args c) \<Longrightarrow> is_plotter_call ev"
  using set_mono_prefix [OF after_update_calls_prefix [of env args c]] render_stage_kinds
  by blast

lemma not_in_filter: "(\<And>ev. ev \<in> set xs \<Longrightarrow> \<not> P ev) \<Longrightarrow> filter P xs = []"
  by (simp add: filter_empty_conv)

lemma prefix_reaches:
  assumes "prefix xs (before @ ev # rest)" and "ev \<in> set xs" and "ev \<notin> set before"
  shows "\<exists>post. xs = before @ ev # post \<and> prefix post rest"
proof -
  from assms(1) consider "prefix xs before"
    | us where "xs = before @ us" "prefix us (ev # rest)"
    by (auto simp: prefix_append)
  then show ?thesis
  proof cases
    case 1
    with assms(2,3) show ?thesis by (auto dest: set_mono_prefix)
  next
    case 2
    with assms(2,3) show ?thesis by (cases us) auto
  qed
qed

lemma Update_stages [simp]:
  "Update \<notin> set (resolve_stage args)" "Update \<notin> set (override_stage args)"
  "Update \<notin> set (load_stage sheet)" "Update \<notin> set (setter_stage args)"
  "Update \<notin> set (save_stage args)"
  by (auto simp: resolve_stage_def override_stage_def override_call_def load_stage_def
        setter_stage_def save_stage_def split: option.splits)

lemma Update_after_update [simp]: "Update \<notin> set (after_update_calls env args c)"
  using after_update_calls_kinds [of Update env args c] by (auto simp: is_plotter_call_def)

subsection \<open>Every call of \<open>draw\<close>\<close>

lemma draw_trace_prefix: "prefix (trace (draw env args)) (pipeline env args)"
  by (cases env args rule: draw_cases)
     (simp_all add: pipeline_def per_call_style_resolved after_update_calls_prefix)

lemma draw_result:
  "result (draw env args) = then_do (finalized_canvas env args) (after_update env args)"
  by (cases env args rule: draw_cases)
     (simp_all add: finalized_canvas_def labelled_canvas_def bits_canvas_def loaded_canvas_def)

lemma draw_update_reached:
  "Update \<in> set (trace (draw env args)) \<longleftrightarrow> \<not> isl (labelled_canvas env args)"
proof (cases env args rule: draw_cases)
  case (setter_fails sheet c0 e evs)
  from set_mono_prefix [OF setter_fails(6)] have "Update \<notin> set evs" by auto
  with setter_fails show ?thesis by simp
qed (simp_all add: labelled_canvas_def bits_canvas_def loaded_canvas_def)

lemma draw_caller_style:
  "final_store (draw env args) caller_style = store (initial_world (style args)) caller_style"
  by (cases env args rule: draw_cases)
     (simp_all add: loaded_world_def head_world_def temp_style_ref_def preset_ref_def)

lemma draw_temp_style:
  "resolved_style env args = Inr sheet \<Longrightarrow>
     final_store (draw env args) temp_style_ref = with_overrides args sheet"
  by (cases env args rule: draw_cases) (simp_all add: loaded_world_def)

lemma draw_resolution:
  "case resolved_style env args of
     Inl e \<Rightarrow> result (draw env args) = Inl e \<and> trace (draw env args) = resolve_stage args
   | Inr sheet \<Rightarrow> final_store (draw env args) temp_style_ref = with_overrides args sheet"
  by (cases env args rule: draw_cases) (simp_all add: loaded_world_def)

lemma draw_finalized:
  assumes "finalized_canvas env args = Inr c"
  shows "result (draw env args) = after_update env args c"
    and "trace (draw env args) =
           resolve_stage args @ override_stage args @ load_stage (per_call_style env args) @
           setter_stage args @ [Update] @ after_update_calls env args c"
proof -
  from assms show "result (draw env args) = after_update env args c"
    by (simp add: draw_result)
  from assms show "trace (draw env args) =
           resolve_stage args @ override_stage args @ load_stage (per_call_style env args) @
           setter_stage args @ [Update] @ after_update_calls env args c"
    by (cases env args rule: draw_cases)
       (simp_all add: finalized_canvas_def labelled_canvas_def bits_canvas_def
          loaded_canvas_def per_call_style_resolved)
qed

lemma draw_not_finalized:
  assumes "finalized_canvas env args = Inl e"
  shows "result (draw env args) = Inl e"
    and "filter is_plotter_call (trace (draw env args)) = []"
proof -
  from assms show "result (draw env args) = Inl e"
    by (simp add: draw_result)
  have none: "filter is_plotter_call (resolve_stage args @ override_stage args @
      load_stage sheet @ evs) = []"
    if "prefix evs (setter_stage args @ [Update])" for sheet evs
    using set_mono_prefix [OF that]
    by (intro not_in_filter)
       (auto simp: is_plotter_call_def is_style_update_def is_setitem_def is_disable_type_def
          dest!: resolve_stage_kinds override_stage_kinds load_stage_kinds setter_stage_kinds
          split: event.splits)
  from assms show "filter is_plotter_call (trace (draw env args)) = []"
  proof (cases env args rule: draw_cases)
    case (resolve_fails e)
    with none [of "[]"] show ?thesis
      by (auto intro!: not_in_filter dest!: resolve_stage_kinds
            simp: is_plotter_call_def is_style_update_def split: event.splits)
  next
    case (load_fails sheet e)
    with none [of "[]" "with_overrides args sheet"] show ?thesis by simp
  next
    case (setter_fails sheet c0 e evs)
    with none [of evs "with_overrides args sheet"] show ?thesis by simp
  next
    case (update_fails sheet c0 c1 e)
    with none [of "setter_stage args @ [Update]" "with_overrides args sheet"] show ?thesis
      by simp
  next
    case (updated sheet c0 c1 c)
    with assms show ?thesis by (simp add: finalized_canvas_def)
  qed
qed

subsection \<open>Calls, evaluated\<close>

lemmas draw_unfold = draw_def draw_body_def run_defs update_stylesheet_def
  style_or_IQXStandard_def new_IQXStandard_def style_ref_def initial_world_def
  update_control_properties_def setitem_if_given_def create_canvas_and_load_def
  update_configuration_def call_plotter_def save_figure_def return_image_def
  default_args_def Plotter_MPL_value_def caller_style_def format_name_def
  result_def trace_def final_store_def

lemmas recorder_unfold = recorder_def recorder_without_matplotlib_def merge_items_def
  control_defaults_def

lemmas stage_unfold = pipeline_def resolve_stage_def override_stage_def load_stage_def
  setter_stage_def render_stage_def save_stage_def per_call_style_def resolved_style_def
  style_source_def with_overrides_def override_def override_call_def truthy_def
  label_types_def preset_ref_def temp_style_ref_def

lemma busy_call_result:
  "result (draw recorder busy_call) =
     Inr [New_DrawerCanvas
            \<lparr> class_name = ''QiskitTimelineStyle'',
              items = [(''formatter.control.show_idle'', VBool False),
                       (''formatter.control.show_clbits'', VBool True),
                       (''formatter.control.show_barriers'', VBool True),
                       (''formatter.control.show_delays'', VBool True),
                       (''formatter.general.fig_width'', VInt 16)] \<rparr>,
          Load_program, Set_time_range 0 100, Set_disable_bits (Qubit 1) True,
          Set_disable_bits (Clbit 0) True, Set_disable_type DELAY True,
          Set_disable_type GATE_PARAM True, Set_disable_type GATE_NAME True,
          Update, New_MplPlotter, Plotter_draw, Save_file ''timeline.png'']"
  by (simp add: draw_unfold recorder_unfold busy_call_def)

lemma busy_call_trace:
  "trace (draw recorder busy_call) =
     [New_QiskitTimelineStyle, Style_update 0,
      Style_setitem ''formatter.control.show_idle'' False,
      New_DrawerCanvas
        \<lparr> class_name = ''QiskitTimelineStyle'',
          items = [(''formatter.control.show_idle'', VBool False),
                   (''formatter.control.show_clbits'', VBool True),
                   (''formatter.control.show_barriers'', VBool True),
                   (''formatter.control.show_delays'', VBool True),
                   (''formatter.general.fig_width'', VInt 16)] \<rparr>,
      Load_program, Set_time_range 0 100, Set_disable_bits (Qubit 1) True,
      Set_disable_bits (Clbit 0) True, Set_disable_type DELAY True,
      Set_disable_type GATE_PARAM True, Set_disable_type GATE_NAME True, Update,
      Import_MplPlotter, New_MplPlotter, Plotter_draw,
      Save_file ''timeline.png'', Get_image]"
  by (simp add: draw_unfold recorder_unfold busy_call_def)

lemma busy_call_sheet:
  "per_call_style recorder busy_call =
     \<lparr> class_name = ''QiskitTimelineStyle'',
       items = [(''formatter.control.show_idle'', VBool False),
                (''formatter.control.show_clbits'', VBool True),
                (''formatter.control.show_barriers'', VBool True),
                (''formatter.control.show_delays'', VBool True),
                (''formatter.general.fig_width'', VInt 16)] \<rparr>"
  by (simp add: stage_unfold recorder_unfold busy_call_def default_args_def)

lemma plain_call_result:
  "result (draw recorder plain_call) =
     Inr [New_DrawerCanvas
            \<lparr> class_name = ''QiskitTimelineStyle'',
              items = [(''formatter.control.show_idle'', VBool True),
                       (''formatter.control.show_clbits'', VBool True),
                       (''formatter.control.show_barriers'', VBool True),
                       (''formatter.control.show_delays'', VBool True),
                       (''formatter.general.fig_width'', VInt 14)] \<rparr>,
          Load_program, Update, New_MplPlotter, Plotter_draw]"
  by (simp add: draw_unfold recorder_unfold plain_call_def)

lemma svg2_call_result:
  "result (draw recorder svg2_call) =
     Inl (VisualizationError ''Plotter API svg2 is not supported.'')"
  by (simp add: draw_unfold recorder_unfold svg2_call_def)

lemma svg2_call_trace:
  "trace (draw recorder svg2_call) =
     [New_QiskitTimelineStyle, New_IQXStandard, Style_update 2,
      New_DrawerCanvas
        \<lparr> class_name = ''QiskitTimelineStyle'',
          items = [(''formatter.control.show_idle'', VBool True),
                   (''formatter.control.show_clbits'', VBool True),
                   (''formatter.control.show_barriers'', VBool True),
                   (''formatter.control.show_delays'', VBool True),
                   (''formatter.general.fig_width'', VInt 14)] \<rparr>,
      Load_program, Update]"
  by (simp add: draw_unfold recorder_unfold svg2_call_def)

lemma no_matplotlib_result:
  "result (draw recorder_without_matplotlib plain_call) =
     Inl (ImportError ''Must have Matplotlib installed.'')"
  by (simp add: draw_unfold recorder_unfold plain_call_def)

lemma unscheduled_results:
  "result (draw recorder svg2_unscheduled_call) =
     Inl (VisualizationError ''Input program is not scheduled'')"
  "result (draw recorder unscheduled_call) =
     Inl (VisualizationError ''Input program is not scheduled'')"
  "result (draw recorder_without_matplotlib unscheduled_call) =
     Inl (VisualizationError ''Input program is not scheduled'')"
  by (simp_all add: draw_unfold recorder_unfold svg2_unscheduled_call_def unscheduled_call_def)

lemma busy_call_stages:
  "finalized_canvas recorder busy_call =
     Inr [New_DrawerCanvas (per_call_style recorder busy_call),
          Load_program, Set_time_range 0 100, Set_disable_bits (Qubit 1) True,
          Set_disable_bits (Clbit 0) True, Set_disable_type DELAY True,
          Set_disable_type GATE_PARAM True, Set_disable_type GATE_NAME True, Update]"
  unfolding busy_call_sheet
  by (simp add: finalized_canvas_def labelled_canvas_def bits_canvas_def loaded_canvas_def
        set_range_def hide_bits_def hide_labels_def label_types_def
        resolved_style_def style_source_def with_overrides_def override_def
        recorder_unfold busy_call_def default_args_def)

subsection \<open>The style the canvas is created with\<close>

lemma draw_load_cases [case_names resolve_fails reaches_load]:
  fixes env :: "('prog, 'c, 'ax, 'p, 'img) collaborators"
  obtains
    (resolve_fails) e where
      "resolved_style env args = Inl e"
      "result (draw env args) = Inl e"
      "trace (draw env args) = resolve_stage args"
  | (reaches_load) sheet evs where
      "resolved_style env args = Inr sheet"
      "trace (draw env args) =
         resolve_stage args @ override_stage args @ load_stage (with_overrides args sheet) @ evs"
      "prefix evs (setter_stage args @ [Update] @ render_stage env args)"
proof (cases env args rule: draw_cases)
  case (resolve_fails e)
  then show ?thesis by (intro that(1) [of e])
next
  case (load_fails sheet e)
  then show ?thesis by (intro that(2) [of sheet "[]"]) simp_all
next
  case (setter_fails sheet c0 e evs)
  then show ?thesis by (intro that(2) [of sheet evs]) simp_all
next
  case (update_fails sheet c0 c1 e)
  then show ?thesis by (intro that(2) [of sheet "setter_stage args @ [Update]"]) simp_all
next
  case (updated sheet c0 c1 c)
  then show ?thesis
    by (intro that(2) [of sheet "setter_stage args @ [Update] @ after_update_calls env args c"])
       (simp_all add: after_update_calls_prefix)
qed

lemma entry_override:
  "entry (override k flag obj) key =
     (if key = k then (case flag of None \<Rightarrow> entry obj key | Some b \<Rightarrow> Some (VBool b))
      else entry obj key)"
  by (cases flag) (simp_all add: entry_def override_def update_conv')

lemma entry_with_overrides:
  "entry (with_overrides args obj) ''formatter.control.show_idle'' =
     (case show_idle args of None \<Rightarrow> entry obj ''formatter.control.show_idle''
      | Some b \<Rightarrow> Some (VBool b))"
  "entry (with_overrides args obj) ''formatter.control.show_clbits'' =
     (case show_clbits args of None \<Rightarrow> entry obj ''formatter.control.show_clbits''
      | Some b \<Rightarrow> Some (VBool b))"
  "entry (with_overrides args obj) ''formatter.control.show_barriers'' =
     (case show_barriers args of None \<Rightarrow> entry obj ''formatter.control.show_barriers''
      | Some b \<Rightarrow> Some (VBool b))"
  "entry (with_overrides args obj) ''formatter.control.show_delays'' =
     (case show_delays args of None \<Rightarrow> entry obj ''formatter.control.show_delays''
      | Some b \<Rightarrow> Some (VBool b))"
  by (simp_all add: with_overrides_def entry_override split: option.splits)

lemma entry_with_overrides_other:
  "key \<notin> {''formatter.control.show_idle'', ''formatter.control.show_clbits'',
           ''formatter.control.show_barriers'', ''formatter.control.show_delays''} \<Longrightarrow>
   entry (with_overrides args obj) key = entry obj key"
  by (simp add: with_overrides_def entry_override)

lemma after_load_kinds:
  assumes "prefix evs (setter_stage args @ [Update] @ render_stage env args)"
      and "ev \<in> set evs"
  shows "\<not> is_setitem ev \<and> (\<forall>sheet. ev \<noteq> New_DrawerCanvas sheet) \<and> \<not> is_style_update ev
         \<and> ev \<noteq> New_IQXStandard"
proof -
  from assms set_mono_prefix have "ev \<in> set (setter_stage args @ [Update] @ render_stage env args)"
    by blast
  then show ?thesis
    by (auto simp: is_setitem_def is_disable_type_def is_plotter_call_def is_style_update_def
          dest!: setter_stage_kinds render_stage_kinds split: event.splits)
qed

lemma draw_canvas_created:
  assumes "New_DrawerCanvas sheet \<in> set (trace (draw env args))"
  shows "\<exists>resolved post. resolved_style env args = Inr resolved
           \<and> sheet = with_overrides args resolved
           \<and> trace (draw env args) =
               resolve_stage args @ override_stage args @ New_DrawerCanvas sheet # post
           \<and> filter is_setitem post = []"
proof (cases env args rule: draw_load_cases)
  case (resolve_fails e)
  with assms show ?thesis
    by (auto dest!: resolve_stage_kinds simp: is_style_update_def)
next
  case (reaches_load resolved evs)
  note evs = reaches_load(3)
  from assms reaches_load(2) after_load_kinds [OF evs]
  have "sheet = with_overrides args resolved"
    by (auto simp: load_stage_def is_style_update_def is_setitem_def
          dest!: resolve_stage_kinds override_stage_kinds)
  moreover have "filter is_setitem (Load_program # evs) = []"
    using after_load_kinds [OF evs] by (auto simp: filter_empty_conv is_setitem_def)
  ultimately show ?thesis
    using reaches_load(1,2) by (auto simp: load_stage_def)
qed

subsection \<open>Resolving the style\<close>

lemma style_update_filters:
  "filter is_style_update (override_stage args) = []"
  "filter is_style_update (load_stage sheet) = []"
  by (rule not_in_filter;
      auto simp: is_style_update_def is_setitem_def
        dest!: override_stage_kinds load_stage_kinds split: event.splits)+

lemma after_load_filters:
  assumes "prefix evs (setter_stage args @ [Update] @ render_stage env args)"
  shows "filter is_style_update evs = []" "New_IQXStandard \<notin> set evs"
  using after_load_kinds [OF assms] by (auto simp: filter_empty_conv)

lemma draw_style_calls:
  "filter is_style_update (trace (draw env args)) = filter is_style_update (resolve_stage args)
   \<and> (New_IQXStandard \<in> set (trace (draw env args)) \<longleftrightarrow> \<not> truthy (style args))
   \<and> prefix (resolve_stage args) (trace (draw env args))"
proof (cases env args rule: draw_load_cases)
  case (resolve_fails e)
  then show ?thesis by (auto simp: resolve_stage_def)
next
  case (reaches_load resolved evs)
  note evs = reaches_load(3)
  have "New_IQXStandard \<notin> set (override_stage args)" "New_IQXStandard \<notin> set (load_stage sheet)"
    for sheet
    by (auto dest!: override_stage_kinds load_stage_kinds simp: is_setitem_def)
  with reaches_load(2) after_load_filters [OF evs] show ?thesis
    by (auto simp: style_update_filters resolve_stage_def)
qed

lemma truthy_source:
  "style args = Some obj \<Longrightarrow> items obj \<noteq> [] \<Longrightarrow>
     truthy (style args) \<and> style_source env args = obj"
  by (simp add: truthy_def style_source_def)

lemma falsy_source:
  "style args = None \<or> (\<exists>obj. style args = Some obj \<and> items obj = []) \<Longrightarrow>
     \<not> truthy (style args) \<and> style_source env args = IQXStandard env"
  by (auto simp: truthy_def style_source_def)

subsection \<open>A falsy style\<close>

lemma configure_and_plot_uniform:
  "\<exists>r evs. \<forall>w. configure_and_plot env args canvas w = (r, w\<lparr>calls := calls w @ evs\<rparr>)"
proof -
  from configure_and_plot_run [of args env canvas] obtain evs where
    run: "\<And>w. configure_and_plot env args canvas w =
       (case then_do (set_range env args canvas) (\<lambda>c.
               then_do (hide_bits env args c) (hide_labels env args)) of
          Inl e \<Rightarrow> (Inl e, w\<lparr>calls := calls w @ evs\<rparr>)
        | Inr c \<Rightarrow>
            (case canvas_update env c of
               Inl e \<Rightarrow> (Inl e, w\<lparr>calls := calls w @ setter_stage args @ [Update]\<rparr>)
             | Inr c' \<Rightarrow>
                 (after_update env args c',
                  w\<lparr>calls := calls w @ setter_stage args @ [Update] @
                                after_update_calls env args c'\<rparr>)))"
    by blast
  show ?thesis
  proof (cases "then_do (set_range env args canvas) (\<lambda>c.
               then_do (hide_bits env args c) (hide_labels env args))")
    case (Inl e)
    then show ?thesis using run by auto
  next
    case (Inr c)
    then show ?thesis using run by (cases "canvas_update env c") auto
  qed
qed

lemma without_style:
  fixes env :: "('prog, 'c, 'ax, 'p, 'img) collaborators"
  shows "with_overrides (args\<lparr>style := None\<rparr>) sheet = with_overrides args sheet"
    and "configure_and_plot env (args\<lparr>style := None\<rparr>) canvas = configure_and_plot env args canvas"
    and "override_stage (args\<lparr>style := None\<rparr>) = override_stage args"
    and "program (args\<lparr>style := None\<rparr>) = program args"
  by (simp_all add: with_overrides_def configure_and_plot_def update_configuration_def
        call_plotter_def save_figure_def override_stage_def cong: if_cong option.case_cong)

lemma falsy_worlds:
  assumes "\<not> truthy (style args)"
  shows "resolved_style env (args\<lparr>style := None\<rparr>) = resolved_style env args"
    and "calls (head_world env (args\<lparr>style := None\<rparr>)) = calls (head_world env args)"
    and "a \<noteq> caller_style \<Longrightarrow>
           store (head_world env (args\<lparr>style := None\<rparr>)) a = store (head_world env args) a"
    and "calls (loaded_world env (args\<lparr>style := None\<rparr>) sheet) = calls (loaded_world env args sheet)"
    and "a \<noteq> caller_style \<Longrightarrow>
           store (loaded_world env (args\<lparr>style := None\<rparr>) sheet) a =
           store (loaded_world env args sheet) a"
  using assms
  by (auto simp: resolved_style_def style_source_def truthy_def head_world_def loaded_world_def
        resolve_stage_def initial_world_def without_style split: option.splits)

lemma draw_falsy_same:
  fixes env :: "('prog, 'c, 'ax, 'p, 'img) collaborators"
  assumes falsy: "\<not> truthy (style args)"
  shows "result (draw env args) = result (draw env (args\<lparr>style := None\<rparr>))
       \<and> trace (draw env args) = trace (draw env (args\<lparr>style := None\<rparr>))
       \<and> (\<forall>a. a \<noteq> caller_style \<longrightarrow>
            final_store (draw env args) a = final_store (draw env (args\<lparr>style := None\<rparr>)) a)"
proof (cases "resolved_style env args")
  case (Inl e)
  with falsy_worlds [OF falsy, where env = env] show ?thesis
    by (simp add: draw_eq result_def trace_def final_store_def)
next
  case resolved: (Inr sheet)
  show ?thesis
  proof (cases "load_program env (DrawerCanvas env (with_overrides args sheet)) (program args)")
    case (Inl e)
    with resolved falsy_worlds [OF falsy, where env = env] show ?thesis
      by (simp add: draw_eq result_def trace_def final_store_def without_style)
  next
    case (Inr canvas)
    from configure_and_plot_uniform [of env args canvas]
    obtain r evs where
      run: "\<And>w. configure_and_plot env args canvas w = (r, w\<lparr>calls := calls w @ evs\<rparr>)"
      by blast
    from resolved Inr falsy_worlds [OF falsy, where env = env] show ?thesis
      by (simp add: draw_eq result_def trace_def final_store_def without_style run)
  qed
qed

subsection \<open>Labels, saving and the exceptions of \<open>draw\<close> itself\<close>

lemma then_do_assoc: "then_do (then_do r f) g = then_do r (\<lambda>a. then_do (f a) g)"
  by (cases r) simp_all

lemma then_do_return [simp]: "then_do r Inr = r" "then_do r (\<lambda>a. Inr a) = r"
  by (cases r; simp)+

lemma hide_labels_eq:
  "hide_labels env args c =
     (if show_labels args then Inr c
      else then_do (set_disable_type env c DELAY True) (\<lambda>c1.
           then_do (set_disable_type env c1 GATE_PARAM True) (\<lambda>c2.
           set_disable_type env c2 GATE_NAME True)))"
  by (simp add: hide_labels_def label_types_def then_do_def split: sum.splits)

lemma draw_result_from_bits:
  assumes "bits_canvas env args = Inr c0"
  shows "result (draw env args) =
           then_do (hide_labels env args c0) (\<lambda>c.
             then_do (canvas_update env c) (after_update env args))"
  using assms
  by (simp add: draw_result finalized_canvas_def labelled_canvas_def then_do_assoc)

lemma draw_result_from_plotter:
  "result (draw env args) =
     then_do (rendered_plotter env args) (\<lambda>p. then_do (persist env args p) (get_image env))"
proof -
  have "after_update env args =
      (\<lambda>c. then_do (render env args c) (\<lambda>p. then_do (persist env args p) (get_image env)))"
    by (rule ext) (simp add: after_update_def)
  then show ?thesis
    by (simp add: draw_result rendered_plotter_def then_do_assoc)
qed

lemma draw_reaches_update:
  assumes "Update \<in> set (trace (draw env args))"
  shows "\<exists>post. trace (draw env args) =
           (resolve_stage args @ override_stage args @ load_stage (per_call_style env args) @
            setter_stage args) @ Update # post \<and>
           prefix post (render_stage env args)"
proof (rule prefix_reaches [OF _ assms])
  show "prefix (trace (draw env args))
          ((resolve_stage args @ override_stage args @ load_stage (per_call_style env args) @
            setter_stage args) @ Update # render_stage env args)"
    using draw_trace_prefix [of env args] by (simp add: pipeline_def)
  show "Update \<notin> set (resolve_stage args @ override_stage args @
          load_stage (per_call_style env args) @ setter_stage args)"
    by simp
qed

lemma disable_type_filters:
  "filter is_disable_type (resolve_stage args) = []"
  "filter is_disable_type (override_stage args) = []"
  "filter is_disable_type (load_stage sheet) = []"
  "filter is_disable_type (render_stage env args) = []"
  by (rule not_in_filter;
      auto simp: is_disable_type_def is_style_update_def is_setitem_def is_plotter_call_def
        dest!: resolve_stage_kinds override_stage_kinds load_stage_kinds render_stage_kinds
        split: event.splits)+

lemma disable_type_time_bits:
  "filter is_disable_type
     ((case time_range args of None \<Rightarrow> [] | Some (t0, t1) \<Rightarrow> [Set_time_range t0 t1]) @
      (case disable_bits args of None \<Rightarrow> []
       | Some bs \<Rightarrow> map (\<lambda>b. Set_disable_bits b True) bs)) = []"
  by (auto simp: is_disable_type_def filter_empty_conv split: option.splits)

lemma disable_type_setters:
  "filter is_disable_type (setter_stage args) =
     (if show_labels args then []
      else [Set_disable_type DELAY True, Set_disable_type GATE_PARAM True,
            Set_disable_type GATE_NAME True])"
  using disable_type_time_bits [of args]
  by (simp add: setter_stage_def is_disable_type_def label_types_def)

lemma save_file_filters:
  "filter is_save_file (resolve_stage args) = []"
  "filter is_save_file (override_stage args) = []"
  "filter is_save_file (load_stage sheet) = []"
  "filter is_save_file (setter_stage args) = []"
  by (rule not_in_filter;
      auto simp: is_disable_type_def is_style_update_def is_setitem_def is_save_file_def
        dest!: resolve_stage_kinds override_stage_kinds load_stage_kinds setter_stage_kinds
        split: event.splits)+

lemma save_file_save_stage: "filter is_save_file (save_stage args) = save_stage args"
  by (simp add: save_stage_def is_save_file_def split: option.splits)

lemma save_file_pipeline:
  "filter is_save_file (pipeline env args) = [] \<or>
   filter is_save_file (pipeline env args) = save_stage args"
  by (simp add: pipeline_def render_stage_def save_file_filters is_save_file_def
        save_file_save_stage)

lemma pipeline_saving:
  assumes "Save_file f \<in> set (pipeline env args)"
  shows "filename args = Some f \<and> f \<noteq> [] \<and>
         pipeline env args =
           (resolve_stage args @ override_stage args @ load_stage (per_call_style env args) @
            setter_stage args @ [Update, Import_MplPlotter, New_MplPlotter, Plotter_draw]) @
           Save_file f # [Get_image]"
proof -
  from assms have "Save_file f \<in> set (render_stage env args)"
    by (auto simp: pipeline_def dest!: resolve_stage_kinds override_stage_kinds
          load_stage_kinds setter_stage_kinds
          simp: is_style_update_def is_setitem_def is_disable_type_def)
  then have full: "render_stage env args =
      [Import_MplPlotter, New_MplPlotter, Plotter_draw] @ save_stage args @ [Get_image]"
    and "Save_file f \<in> set (save_stage args)"
    by (auto simp: render_stage_def split: if_splits)
  from save_stage_kinds [OF this(2)] have name: "filename args = Some f" "f \<noteq> []"
    by auto
  then have "save_stage args = [Save_file f]"
    by (simp add: save_stage_def)
  with name full show ?thesis by (simp add: pipeline_def)
qed

lemma save_file_after_update:
  assumes "filename args = Some f" and "f \<noteq> []"
  shows "Save_file f \<in> set (after_update_calls env args c) \<longleftrightarrow> \<not> isl (render env args c)"
proof (cases "plotter args = Some Plotter_MPL_value")
  case False
  then show ?thesis by (simp add: after_update_calls_def render_def)
next
  case mpl: True
  show ?thesis
  proof (cases "MplPlotter env")
    case None
    with mpl show ?thesis by (simp add: after_update_calls_def render_def)
  next
    case (Some new)
    with mpl assms show ?thesis
      by (cases "plotter_draw env (new c (axis args))")
         (simp_all add: after_update_calls_def render_def save_stage_def)
  qed
qed

lemma save_file_called:
  assumes "filename args = Some f" and "f \<noteq> []"
  shows "Save_file f \<in> set (trace (draw env args)) \<longleftrightarrow> \<not> isl (rendered_plotter env args)"
proof (cases "finalized_canvas env args")
  case (Inl e)
  from draw_not_finalized(2) [OF Inl] have "Save_file f \<notin> set (trace (draw env args))"
    by (auto simp: filter_empty_conv is_plotter_call_def)
  with Inl show ?thesis by (simp add: rendered_plotter_def)
next
  case (Inr c)
  have "Save_file f \<notin> set (resolve_stage args @ override_stage args @
      load_stage (per_call_style env args) @ setter_stage args @ [Update])"
    by (auto simp: load_stage_def is_style_update_def is_setitem_def is_disable_type_def
          dest!: resolve_stage_kinds override_stage_kinds setter_stage_kinds)
  then have "Save_file f \<in> set (trace (draw env args)) \<longleftrightarrow>
      Save_file f \<in> set (after_update_calls env args c)"
    by (simp add: draw_finalized(2) [OF Inr])
  with save_file_after_update [OF assms, of env c] Inr show ?thesis
    by (simp add: rendered_plotter_def)
qed

lemma names_matplotlib: "sublist ''Matplotlib'' ''Must have Matplotlib installed.''"
  unfolding sublist_def
  by (rule exI [of _ "''Must have ''"], rule exI [of _ "'' installed.''"]) simp

lemma svg2_call_finalized: "\<not> isl (finalized_canvas recorder svg2_call)"
  by (simp add: finalized_canvas_def labelled_canvas_def bits_canvas_def loaded_canvas_def
        set_range_def hide_bits_def hide_labels_def resolved_style_def style_source_def
        recorder_unfold svg2_call_def default_args_def)

lemma plain_call_finalized: "\<not> isl (finalized_canvas recorder_without_matplotlib plain_call)"
  by (simp add: finalized_canvas_def labelled_canvas_def bits_canvas_def loaded_canvas_def
        set_range_def hide_bits_def hide_labels_def resolved_style_def style_source_def
        recorder_unfold plain_call_def default_args_def)

lemma plotter_call_filters:
  "filter is_plotter_call (resolve_stage args) = []"
  "filter is_plotter_call (override_stage args) = []"
  "filter is_plotter_call (load_stage sheet) = []"
  "filter is_plotter_call (setter_stage args) = []"
  by (rule not_in_filter;
      auto simp: is_disable_type_def is_style_update_def is_setitem_def is_plotter_call_def
        dest!: resolve_stage_kinds override_stage_kinds load_stage_kinds setter_stage_kinds
        split: event.splits)+

section \<open>The claims\<close>

text \<open>
  Claim C1, as stated: for a plotter name that is not registered, \<open>draw\<close> raises the
  configuration error before \<open>load_program\<close> is invoked. The source tests the plotter name
  after \<open>canvas.update()\<close>: with the name \<open>svg2\<close> the error is raised, and \<open>load_program\<close>
  has been invoked by then.
\<close>

theorem draw_unknown_plotter_counterexample:
  "plotter svg2_call \<noteq> Some Plotter_MPL_value
   \<and> result (draw recorder svg2_call) =
       Inl (VisualizationError ''Plotter API svg2 is not supported.'')
   \<and> Load_program \<in> set (trace (draw recorder svg2_call))"
  by (simp add: svg2_call_result svg2_call_trace)
     (simp add: svg2_call_def default_args_def Plotter_MPL_value_def)

text \<open>
  Claim C1, amended. For every program and every plotter name other than the registered
  one, \<open>draw\<close> returns no image and makes no call to a plotter (no import, no
  construction, no drawing, no saving, no \<open>get_image\<close>). When a collaborator raises on the
  way to the finalized canvas (resolving the style, \<open>load_program\<close>, a setter, \<open>update\<close>),
  that exception is what \<open>draw\<close> raises. Otherwise \<open>draw\<close> raises the configuration error,
  and it does so after the style has been resolved, the canvas created, \<open>load_program\<close>
  invoked, the setters run and \<open>update\<close> invoked: not before \<open>load_program\<close>.
\<close>

theorem draw_unknown_plotter:
  assumes "plotter args \<noteq> Some Plotter_MPL_value"
  shows "isl (result (draw env args))
       \<and> filter is_plotter_call (trace (draw env args)) = []
       \<and> (case finalized_canvas env args of
            Inl e \<Rightarrow> result (draw env args) = Inl e
          | Inr c \<Rightarrow>
              result (draw env args) = Inl (unsupported args)
              \<and> trace (draw env args) =
                  resolve_stage args @ override_stage args @
                  [New_DrawerCanvas (per_call_style env args), Load_program] @
                  setter_stage args @ [Update])"
proof (cases "finalized_canvas env args")
  case (Inl e)
  with draw_not_finalized [OF Inl] show ?thesis by simp
next
  case (Inr c)
  from assms have "after_update env args c = Inl (unsupported args)"
    and "after_update_calls env args c = []"
    by (simp_all add: after_update_def render_def after_update_calls_def)
  with draw_finalized [OF Inr] Inr show ?thesis
    by (simp add: load_stage_def is_plotter_call_def plotter_call_filters)
qed

theorem draw_unknown_plotter_witness:
  "plotter svg2_call \<noteq> Some Plotter_MPL_value
   \<and> \<not> isl (finalized_canvas recorder svg2_call)
   \<and> isl (result (draw recorder svg2_call))
   \<and> filter is_plotter_call (trace (draw recorder svg2_call)) = []
   \<and> result (draw recorder svg2_call) = Inl (unsupported svg2_call)
   \<and> trace (draw recorder svg2_call) =
        resolve_stage svg2_call @ override_stage svg2_call @
        [New_DrawerCanvas (per_call_style recorder svg2_call), Load_program] @
        setter_stage svg2_call @ [Update]"
proof -
  have name: "plotter svg2_call \<noteq> Some Plotter_MPL_value"
    by (simp add: svg2_call_def default_args_def Plotter_MPL_value_def)
  from svg2_call_finalized obtain c where fin: "finalized_canvas recorder svg2_call = Inr c"
    by (cases "finalized_canvas recorder svg2_call") auto
  from draw_unknown_plotter [OF name, of recorder, unfolded fin sum.case]
    name svg2_call_finalized
  show ?thesis by blast
qed

text \<open>
  Claim C2. With \<open>show_labels = False\<close>, exactly the three label types \<open>DELAY\<close>,
  \<open>GATE_PARAM\<close> and \<open>GATE_NAME\<close> are disabled on the canvas, by \<open>set_disable_type\<close> with
  \<open>remove = True\<close>, in this order, before \<open>update\<close>: \<open>update\<close> is called on the canvas these
  three calls return, starting from the canvas the time range and the disabled bits left.
  With \<open>show_labels = True\<close> none is disabled: \<open>update\<close> is called on the canvas as the
  bits left it. In every call the \<open>set_disable_type\<close> calls made are an initial part of
  these three, so labels are suppressed in no other way.
\<close>

theorem draw_show_labels:
  "prefix (filter is_disable_type (trace (draw env args)))
     (if show_labels args then []
      else [Set_disable_type DELAY True, Set_disable_type GATE_PARAM True,
            Set_disable_type GATE_NAME True])
   \<and> (\<forall>c0. bits_canvas env args = Inr c0 \<longrightarrow>
        result (draw env args) =
          then_do (if show_labels args then Inr c0
                   else then_do (set_disable_type env c0 DELAY True) (\<lambda>c1.
                        then_do (set_disable_type env c1 GATE_PARAM True) (\<lambda>c2.
                        set_disable_type env c2 GATE_NAME True)))
            (\<lambda>c. then_do (canvas_update env c) (after_update env args)))
   \<and> (\<not> show_labels args \<longrightarrow> Update \<in> set (trace (draw env args)) \<longrightarrow>
        (\<exists>pre post c0 c1 c2 c3.
            trace (draw env args) =
              pre @ [Set_disable_type DELAY True, Set_disable_type GATE_PARAM True,
                     Set_disable_type GATE_NAME True, Update] @ post
          \<and> filter is_disable_type pre = [] \<and> filter is_disable_type post = []
          \<and> bits_canvas env args = Inr c0
          \<and> set_disable_type env c0 DELAY True = Inr c1
          \<and> set_disable_type env c1 GATE_PARAM True = Inr c2
          \<and> set_disable_type env c2 GATE_NAME True = Inr c3
          \<and> result (draw env args) = then_do (canvas_update env c3) (after_update env args)))"
proof -
  have "filter is_disable_type (pipeline env args) =
     (if show_labels args then []
      else [Set_disable_type DELAY True, Set_disable_type GATE_PARAM True,
            Set_disable_type GATE_NAME True])"
    by (simp add: pipeline_def disable_type_filters disable_type_setters is_disable_type_def)
  with filter_mono_prefix [OF draw_trace_prefix [of env args], of is_disable_type]
  have calls: "prefix (filter is_disable_type (trace (draw env args)))
     (if show_labels args then []
      else [Set_disable_type DELAY True, Set_disable_type GATE_PARAM True,
            Set_disable_type GATE_NAME True])"
    by simp
  have results: "result (draw env args) =
          then_do (if show_labels args then Inr c0
                   else then_do (set_disable_type env c0 DELAY True) (\<lambda>c1.
                        then_do (set_disable_type env c1 GATE_PARAM True) (\<lambda>c2.
                        set_disable_type env c2 GATE_NAME True)))
            (\<lambda>c. then_do (canvas_update env c) (after_update env args))"
    if "bits_canvas env args = Inr c0" for c0
    using draw_result_from_bits [OF that] by (simp add: hide_labels_eq)
  have reached: "\<exists>pre post c0 c1 c2 c3.
            trace (draw env args) =
              pre @ [Set_disable_type DELAY True, Set_disable_type GATE_PARAM True,
                     Set_disable_type GATE_NAME True, Update] @ post
          \<and> filter is_disable_type pre = [] \<and> filter is_disable_type post = []
          \<and> bits_canvas env args = Inr c0
          \<and> set_disable_type env c0 DELAY True = Inr c1
          \<and> set_disable_type env c1 GATE_PARAM True = Inr c2
          \<and> set_disable_type env c2 GATE_NAME True = Inr c3
          \<and> result (draw env args) = then_do (canvas_update env c3) (after_update env args)"
    if labels: "\<not> show_labels args" and update: "Update \<in> set (trace (draw env args))"
  proof -
    from draw_reaches_update [OF update] obtain post where
      tr: "trace (draw env args) =
             (resolve_stage args @ override_stage args @ load_stage (per_call_style env args) @
              setter_stage args) @ Update # post"
      and post: "prefix post (render_stage env args)"
      by blast
    define pre where "pre =
       resolve_stage args @ override_stage args @ load_stage (per_call_style env args) @
       (case time_range args of None \<Rightarrow> [] | Some (t0, t1) \<Rightarrow> [Set_time_range t0 t1]) @
       (case disable_bits args of None \<Rightarrow> [] | Some bs \<Rightarrow> map (\<lambda>b. Set_disable_bits b True) bs)"
    from labels tr have shape: "trace (draw env args) =
         pre @ [Set_disable_type DELAY True, Set_disable_type GATE_PARAM True,
                Set_disable_type GATE_NAME True, Update] @ post"
      by (simp add: pre_def setter_stage_def label_types_def)
    have pre: "filter is_disable_type pre = []"
      using disable_type_time_bits [of args] by (simp add: pre_def disable_type_filters)
    from filter_mono_prefix [OF post, of is_disable_type]
    have post': "filter is_disable_type post = []"
      by (simp add: disable_type_filters)
    from update draw_update_reached [of env args] obtain c3 where
      c3: "labelled_canvas env args = Inr c3"
      by (cases "labelled_canvas env args") auto
    then obtain c0 where c0: "bits_canvas env args = Inr c0"
      and hidden: "hide_labels env args c0 = Inr c3"
      by (auto simp: labelled_canvas_def then_do_Inr)
    from hidden labels obtain c1 c2 where
      chain: "set_disable_type env c0 DELAY True = Inr c1"
        "set_disable_type env c1 GATE_PARAM True = Inr c2"
        "set_disable_type env c2 GATE_NAME True = Inr c3"
      by (auto simp: hide_labels_eq then_do_Inr)
    from results [OF c0] labels chain
    have "result (draw env args) = then_do (canvas_update env c3) (after_update env args)"
      by simp
    with shape pre post' c0 chain show ?thesis by blast
  qed
  from calls results reached show ?thesis by blast
qed

theorem draw_show_labels_witness:
  "\<not> show_labels busy_call \<and> Update \<in> set (trace (draw recorder busy_call))
   \<and> (\<exists>pre post c0 c1 c2 c3.
          trace (draw recorder busy_call) =
            pre @ [Set_disable_type DELAY True, Set_disable_type GATE_PARAM True,
                   Set_disable_type GATE_NAME True, Update] @ post
        \<and> filter is_disable_type pre = [] \<and> filter is_disable_type post = []
        \<and> bits_canvas recorder busy_call = Inr c0
        \<and> set_disable_type recorder c0 DELAY True = Inr c1
        \<and> set_disable_type recorder c1 GATE_PARAM True = Inr c2
        \<and> set_disable_type recorder c2 GATE_NAME True = Inr c3
        \<and> result (draw recorder busy_call) =
            then_do (canvas_update recorder c3) (after_update recorder busy_call))"
proof -
  have "\<not> show_labels busy_call" by (simp add: busy_call_def)
  moreover have "Update \<in> set (trace (draw recorder busy_call))"
    by (simp add: busy_call_trace)
  ultimately show ?thesis
    using draw_show_labels [of recorder busy_call] by blast
qed

text \<open>
  Claim C3. Whenever the canvas is created, the style sheet it is created with agrees with
  the resolved style (the result of \<open>update\<close> on a new \<open>QiskitTimelineStyle\<close>) on every
  key but the four control keys; for each of \<open>show_idle\<close>, \<open>show_clbits\<close>,
  \<open>show_barriers\<close> and \<open>show_delays\<close>, the entry \<open>formatter.control.*\<close> is the caller's
  value when the caller gave one (whatever the resolved style holds), and the resolved
  style's entry when the caller passed \<open>None\<close>. All item assignments come before the
  canvas is created.
\<close>

theorem draw_control_overrides:
  assumes "New_DrawerCanvas sheet \<in> set (trace (draw env args))"
  shows "\<exists>resolved post.
           stylesheet_update env (QiskitTimelineStyle env) (style_source env args) = Inr resolved
         \<and> entry sheet ''formatter.control.show_idle'' =
             (case show_idle args of None \<Rightarrow> entry resolved ''formatter.control.show_idle''
              | Some b \<Rightarrow> Some (VBool b))
         \<and> entry sheet ''formatter.control.show_clbits'' =
             (case show_clbits args of None \<Rightarrow> entry resolved ''formatter.control.show_clbits''
              | Some b \<Rightarrow> Some (VBool b))
         \<and> entry sheet ''formatter.control.show_barriers'' =
             (case show_barriers args of None \<Rightarrow> entry resolved ''formatter.control.show_barriers''
              | Some b \<Rightarrow> Some (VBool b))
         \<and> entry sheet ''formatter.control.show_delays'' =
             (case show_delays args of None \<Rightarrow> entry resolved ''formatter.control.show_delays''
              | Some b \<Rightarrow> Some (VBool b))
         \<and> (\<forall>key. key \<notin> {''formatter.control.show_idle'', ''formatter.control.show_clbits'',
                          ''formatter.control.show_barriers'', ''formatter.control.show_delays''}
                \<longrightarrow> entry sheet key = entry resolved key)
         \<and> trace (draw env args) =
             resolve_stage args @ override_stage args @ New_DrawerCanvas sheet # post
         \<and> filter is_setitem (resolve_stage args) = []
         \<and> filter is_setitem post = []"
proof -
  from draw_canvas_created [OF assms] obtain resolved post where
    "resolved_style env args = Inr resolved" "sheet = with_overrides args resolved"
    "trace (draw env args) =
       resolve_stage args @ override_stage args @ New_DrawerCanvas sheet # post"
    "filter is_setitem post = []"
    by blast
  moreover have "filter is_setitem (resolve_stage args) = []"
    by (simp add: resolve_stage_def is_setitem_def)
  ultimately show ?thesis
    using entry_with_overrides [of args resolved] entry_with_overrides_other [of _ args resolved]
    by (intro exI [of _ resolved] exI [of _ post]) (simp add: resolved_style_def)
qed

theorem draw_control_overrides_witness:
  "New_DrawerCanvas (per_call_style recorder busy_call) \<in> set (trace (draw recorder busy_call))
   \<and> show_idle busy_call = Some False \<and> show_clbits busy_call = None
   \<and> (\<exists>resolved.
         stylesheet_update recorder (QiskitTimelineStyle recorder)
           (style_source recorder busy_call) = Inr resolved
       \<and> entry (per_call_style recorder busy_call) ''formatter.control.show_idle''
           = Some (VBool False)
       \<and> entry (per_call_style recorder busy_call) ''formatter.control.show_clbits''
           = entry resolved ''formatter.control.show_clbits'')"
proof -
  have created: "New_DrawerCanvas (per_call_style recorder busy_call)
                   \<in> set (trace (draw recorder busy_call))"
    by (simp add: busy_call_trace busy_call_sheet)
  have flags: "show_idle busy_call = Some False" "show_clbits busy_call = None"
    by (simp_all add: busy_call_def default_args_def)
  from draw_control_overrides [OF created] flags created show ?thesis
    by auto
qed

text \<open>
  Claim C4, as stated: for every plotter name other than \<open>mpl\<close>, \<open>draw\<close> raises the
  configuration error, and for \<open>mpl\<close> with Matplotlib available no such error is raised.
  The plotter name is tested last. With the name \<open>svg2\<close> and a program that is not
  scheduled, \<open>draw\<close> raises what \<open>load_program\<close> raises, not the error naming the plotter;
  and with the name \<open>mpl\<close>, Matplotlib available and the same program, \<open>draw\<close> raises a
  \<open>VisualizationError\<close> all the same, the one of \<open>load_program\<close>.
\<close>

theorem draw_plotter_name_counterexample:
  "plotter svg2_unscheduled_call \<noteq> Some Plotter_MPL_value
   \<and> result (draw recorder svg2_unscheduled_call) =
       Inl (VisualizationError ''Input program is not scheduled'')
   \<and> result (draw recorder svg2_unscheduled_call) \<noteq>
       Inl (VisualizationError ''Plotter API svg2 is not supported.'')
   \<and> plotter unscheduled_call = Some Plotter_MPL_value
   \<and> MplPlotter recorder \<noteq> None
   \<and> result (draw recorder unscheduled_call) =
       Inl (VisualizationError ''Input program is not scheduled'')"
  by (simp add: unscheduled_results)
     (simp add: svg2_unscheduled_call_def unscheduled_call_def default_args_def
        Plotter_MPL_value_def recorder_def)

text \<open>
  Claim C4, amended. For every plotter name other than \<open>mpl\<close> (and for \<open>None\<close>), \<open>draw\<close>
  returns no image: when every call on the way to the finalized canvas returns (resolving
  the style, \<open>load_program\<close>, the setters, \<open>update\<close>), it raises the \<open>VisualizationError\<close>
  naming the plotter; otherwise it raises the exception of the call that raised. For the
  name \<open>mpl\<close> with \<open>MplPlotter\<close> importable, \<open>draw\<close> raises no error of its own: it returns
  what \<open>get_image\<close> returns for the drawn and saved plotter, or raises the exception of
  the collaborator call that raised.
\<close>

theorem draw_plotter_name:
  "(plotter args \<noteq> Some Plotter_MPL_value \<longrightarrow>
      isl (result (draw env args)) \<and>
      (case finalized_canvas env args of
         Inl e \<Rightarrow> result (draw env args) = Inl e
       | Inr c \<Rightarrow>
           result (draw env args) =
             Inl (VisualizationError
                    (''Plotter API '' @ format_name (plotter args) @ '' is not supported.''))))
   \<and> (plotter args = Some Plotter_MPL_value \<longrightarrow>
        (\<forall>new. MplPlotter env = Some new \<longrightarrow>
           result (draw env args) =
             then_do (finalized_canvas env args) (\<lambda>c.
             then_do (plotter_draw env (new c (axis args))) (\<lambda>p.
             then_do (persist env args p) (get_image env)))))"
proof (intro conjI impI allI)
  assume other: "plotter args \<noteq> Some Plotter_MPL_value"
  then have raised: "after_update env args c = Inl (unsupported args)" for c
    by (simp add: after_update_def render_def)
  then show "isl (result (draw env args))"
    by (cases "finalized_canvas env args") (simp_all add: draw_result)
  from raised show "case finalized_canvas env args of
         Inl e \<Rightarrow> result (draw env args) = Inl e
       | Inr c \<Rightarrow>
           result (draw env args) =
             Inl (VisualizationError
                    (''Plotter API '' @ format_name (plotter args) @ '' is not supported.''))"
    by (cases "finalized_canvas env args") (simp_all add: draw_result unsupported_def)
next
  fix new
  assume "plotter args = Some Plotter_MPL_value" and "MplPlotter env = Some new"
  then have "after_update env args =
      (\<lambda>c. then_do (plotter_draw env (new c (axis args))) (\<lambda>p.
             then_do (persist env args p) (get_image env)))"
    by (intro ext) (simp add: after_update_def render_def)
  then show "result (draw env args) =
             then_do (finalized_canvas env args) (\<lambda>c.
             then_do (plotter_draw env (new c (axis args))) (\<lambda>p.
             then_do (persist env args p) (get_image env)))"
    by (simp add: draw_result)
qed

theorem draw_plotter_name_witness:
  "plotter svg2_call \<noteq> Some Plotter_MPL_value
   \<and> \<not> isl (finalized_canvas recorder svg2_call)
   \<and> result (draw recorder svg2_call) =
       Inl (VisualizationError
              (''Plotter API '' @ format_name (plotter svg2_call) @ '' is not supported.''))
   \<and> plotter busy_call = Some Plotter_MPL_value
   \<and> (\<exists>new. MplPlotter recorder = Some new
        \<and> result (draw recorder busy_call) =
             then_do (finalized_canvas recorder busy_call) (\<lambda>c.
             then_do (plotter_draw recorder (new c (axis busy_call))) (\<lambda>p.
             then_do (persist recorder busy_call p) (get_image recorder))))"
proof -
  have other: "plotter svg2_call \<noteq> Some Plotter_MPL_value"
    by (simp add: svg2_call_def default_args_def Plotter_MPL_value_def)
  from svg2_call_finalized obtain c where fin: "finalized_canvas recorder svg2_call = Inr c"
    by (cases "finalized_canvas recorder svg2_call") auto
  have mpl: "plotter busy_call = Some Plotter_MPL_value"
    by (simp add: busy_call_def default_args_def)
  obtain new where new: "MplPlotter recorder = Some new"
    by (simp add: recorder_def)
  from draw_plotter_name [of svg2_call recorder, unfolded fin sum.case]
    draw_plotter_name [of busy_call recorder] other mpl new svg2_call_finalized
  show ?thesis by blast
qed

text \<open>
  Claim C5. \<open>draw\<close> saves the figure if and only if a file name is supplied, that is,
  \<open>filename\<close> passes the test \<open>if filename:\<close> (it is neither \<open>None\<close> nor the empty string).
  Without one, \<open>save_file\<close> is never called and \<open>get_image\<close> is applied to the plotter as
  its \<open>draw\<close> left it. With one, \<open>save_file\<close> is called exactly when the plotter's \<open>draw\<close>
  has returned, on the plotter that \<open>draw\<close> returned and with that file name, directly
  after the plotter's \<open>draw\<close> and before \<open>get_image\<close>; \<open>get_image\<close> is then applied to
  the plotter \<open>save_file\<close> returned, and an exception of \<open>save_file\<close> is raised by \<open>draw\<close>.
\<close>

theorem draw_save_file:
  "(filename args = None \<or> filename args = Some [] \<longrightarrow>
      filter is_save_file (trace (draw env args)) = []
      \<and> result (draw env args) = then_do (rendered_plotter env args) (get_image env))
   \<and> (\<forall>f. filename args = Some f \<longrightarrow> f \<noteq> [] \<longrightarrow>
         result (draw env args) =
           then_do (rendered_plotter env args) (\<lambda>p.
           then_do (save_file env p f) (get_image env))
         \<and> (Save_file f \<in> set (trace (draw env args)) \<longleftrightarrow> \<not> isl (rendered_plotter env args)))
   \<and> (\<forall>f. Save_file f \<in> set (trace (draw env args)) \<longrightarrow>
         filename args = Some f \<and> f \<noteq> [] \<and>
         (\<exists>pre post. trace (draw env args) = pre @ [Plotter_draw, Save_file f] @ post
            \<and> filter is_save_file pre = [] \<and> Get_image \<notin> set pre
            \<and> (post = [] \<or> post = [Get_image])))
   \<and> (\<forall>f. filename args = Some f \<longrightarrow> f \<noteq> [] \<longrightarrow> \<not> isl (result (draw env args)) \<longrightarrow>
         (\<exists>pre. trace (draw env args) = pre @ [Plotter_draw, Save_file f, Get_image]
            \<and> filter is_save_file pre = [] \<and> Get_image \<notin> set pre))"
proof -
  have unnamed: "filter is_save_file (trace (draw env args)) = []
      \<and> result (draw env args) = then_do (rendered_plotter env args) (get_image env)"
    if none: "filename args = None \<or> filename args = Some []"
  proof
    from none have "save_stage args = []" by (auto simp: save_stage_def)
    with save_file_pipeline [of env args]
    have "filter is_save_file (pipeline env args) = []" by auto
    with filter_mono_prefix [OF draw_trace_prefix [of env args], of is_save_file]
    show "filter is_save_file (trace (draw env args)) = []" by simp
    from none have "persist env args = Inr"
      by (intro ext) (auto simp: persist_def)
    then show "result (draw env args) = then_do (rendered_plotter env args) (get_image env)"
      by (simp add: draw_result_from_plotter)
  qed
  have named: "result (draw env args) =
           then_do (rendered_plotter env args) (\<lambda>p.
           then_do (save_file env p f) (get_image env))
         \<and> (Save_file f \<in> set (trace (draw env args)) \<longleftrightarrow> \<not> isl (rendered_plotter env args))"
    if name: "filename args = Some f" "f \<noteq> []" for f
  proof
    from name have "persist env args = (\<lambda>p. save_file env p f)"
      by (intro ext) (simp add: persist_def)
    then show "result (draw env args) =
           then_do (rendered_plotter env args) (\<lambda>p.
           then_do (save_file env p f) (get_image env))"
      by (simp add: draw_result_from_plotter)
    from save_file_called [OF name, of env]
    show "Save_file f \<in> set (trace (draw env args)) \<longleftrightarrow> \<not> isl (rendered_plotter env args)" .
  qed
  define pre where "pre =
     resolve_stage args @ override_stage args @ load_stage (per_call_style env args) @
     setter_stage args @ [Update, Import_MplPlotter, New_MplPlotter]"
  have pre: "filter is_save_file pre = []" "Get_image \<notin> set pre" "\<And>f. Save_file f \<notin> set pre"
    by (auto simp: pre_def save_file_filters is_save_file_def load_stage_def
          dest!: resolve_stage_kinds override_stage_kinds setter_stage_kinds
          simp: is_style_update_def is_setitem_def is_disable_type_def)
  have saved: "filename args = Some f \<and> f \<noteq> [] \<and>
         (\<exists>pre post. trace (draw env args) = pre @ [Plotter_draw, Save_file f] @ post
            \<and> filter is_save_file pre = [] \<and> Get_image \<notin> set pre
            \<and> (post = [] \<or> post = [Get_image]))"
    if called: "Save_file f \<in> set (trace (draw env args))" for f
  proof -
    from called set_mono_prefix [OF draw_trace_prefix [of env args]]
    have "Save_file f \<in> set (pipeline env args)" by blast
    from pipeline_saving [OF this]
    have name: "filename args = Some f" "f \<noteq> []"
      and pl: "pipeline env args = (pre @ [Plotter_draw]) @ Save_file f # [Get_image]"
      by (simp_all add: pre_def)
    from draw_trace_prefix [of env args] pl
    have "prefix (trace (draw env args)) ((pre @ [Plotter_draw]) @ Save_file f # [Get_image])"
      by simp
    from prefix_reaches [OF this called] pre(3) [of f]
    obtain post where "trace (draw env args) = (pre @ [Plotter_draw]) @ Save_file f # post"
      and "prefix post [Get_image]"
      by auto
    then have "trace (draw env args) = pre @ [Plotter_draw, Save_file f] @ post"
      and "post = [] \<or> post = [Get_image]"
      by (auto simp: prefix_Cons)
    with pre(1,2) name show ?thesis by blast
  qed
  have returned: "\<exists>pre. trace (draw env args) = pre @ [Plotter_draw, Save_file f, Get_image]
            \<and> filter is_save_file pre = [] \<and> Get_image \<notin> set pre"
    if name: "filename args = Some f" "f \<noteq> []" and ok: "\<not> isl (result (draw env args))" for f
  proof -
    from ok obtain img where img: "result (draw env args) = Inr img"
      by (cases "result (draw env args)") auto
    then obtain c where c: "finalized_canvas env args = Inr c"
      and after: "after_update env args c = Inr img"
      by (auto simp: draw_result then_do_Inr)
    from after obtain p p' where "render env args c = Inr p" "persist env args p = Inr p'"
      by (auto simp: after_update_def then_do_Inr)
    with name have "after_update_calls env args c =
        [Import_MplPlotter, New_MplPlotter, Plotter_draw, Save_file f, Get_image]"
      by (auto simp: after_update_calls_def render_def save_stage_def
            split: if_splits option.splits)
    with draw_finalized(2) [OF c]
    have "trace (draw env args) = pre @ [Plotter_draw, Save_file f, Get_image]"
      by (simp add: pre_def)
    with pre(1,2) show ?thesis by blast
  qed
  from unnamed named saved returned show ?thesis by blast
qed

theorem draw_save_file_witness:
  "filename plain_call = None
   \<and> filter is_save_file (trace (draw recorder plain_call)) = []
   \<and> result (draw recorder plain_call) =
       then_do (rendered_plotter recorder plain_call) (get_image recorder)
   \<and> filename busy_call = Some ''timeline.png''
   \<and> Save_file ''timeline.png'' \<in> set (trace (draw recorder busy_call))
   \<and> \<not> isl (rendered_plotter recorder busy_call)
   \<and> result (draw recorder busy_call) =
       then_do (rendered_plotter recorder busy_call) (\<lambda>p.
       then_do (save_file recorder p ''timeline.png'') (get_image recorder))
   \<and> \<not> isl (result (draw recorder busy_call))
   \<and> (\<exists>pre. trace (draw recorder busy_call) =
                pre @ [Plotter_draw, Save_file ''timeline.png'', Get_image]
            \<and> filter is_save_file pre = [] \<and> Get_image \<notin> set pre)"
proof -
  have "filename plain_call = None"
    by (simp add: plain_call_def default_args_def)
  moreover have "Save_file ''timeline.png'' \<in> set (trace (draw recorder busy_call))"
    by (simp add: busy_call_trace)
  moreover have "filename busy_call = Some ''timeline.png''" "''timeline.png'' \<noteq> []"
    by (simp_all add: busy_call_def)
  moreover have "\<not> isl (result (draw recorder busy_call))"
    by (simp add: busy_call_result)
  ultimately show ?thesis
    using draw_save_file [of plain_call recorder] draw_save_file [of busy_call recorder]
    by blast
qed

text \<open>
  Claim C6, as stated: with the plotter name \<open>mpl\<close> and Matplotlib not importable, \<open>draw\<close>
  raises an error of a kind other than the configuration error, whose message names the
  missing dependency. The import is attempted last: with a program that is not
  scheduled, \<open>draw\<close> raises what \<open>load_program\<close> raises, a \<open>VisualizationError\<close> that names
  no dependency.
\<close>

theorem draw_missing_matplotlib_counterexample:
  "plotter unscheduled_call = Some Plotter_MPL_value
   \<and> MplPlotter recorder_without_matplotlib = None
   \<and> result (draw recorder_without_matplotlib unscheduled_call) =
       Inl (VisualizationError ''Input program is not scheduled'')"
  by (simp add: unscheduled_results)
     (simp add: unscheduled_call_def default_args_def recorder_without_matplotlib_def)

text \<open>
  Claim C6, amended. With the plotter name \<open>mpl\<close> and \<open>MplPlotter\<close> not importable, \<open>draw\<close>
  returns no image. When every call on the way to the finalized canvas returns
  (resolving the style, \<open>load_program\<close>, the setters, \<open>update\<close>), \<open>draw\<close> attempts the
  import and raises an \<open>ImportError\<close> whose message contains \<open>Matplotlib\<close>; this is not a
  \<open>VisualizationError\<close>. Otherwise it raises the exception of the call that raised.
\<close>

theorem draw_missing_matplotlib:
  assumes "plotter args = Some Plotter_MPL_value" and "MplPlotter env = None"
  shows "isl (result (draw env args))
       \<and> (case finalized_canvas env args of
            Inl e \<Rightarrow> result (draw env args) = Inl e
          | Inr c \<Rightarrow>
              (\<exists>msg. result (draw env args) = Inl (ImportError msg) \<and> sublist ''Matplotlib'' msg)
              \<and> (\<forall>msg. result (draw env args) \<noteq> Inl (VisualizationError msg))
              \<and> trace (draw env args) =
                  resolve_stage args @ override_stage args @
                  [New_DrawerCanvas (per_call_style env args), Load_program] @
                  setter_stage args @ [Update, Import_MplPlotter])"
proof (cases "finalized_canvas env args")
  case (Inl e)
  with draw_not_finalized(1) [OF Inl] show ?thesis by simp
next
  case (Inr c)
  from assms have "after_update env args c = Inl missing_matplotlib"
    and "after_update_calls env args c = [Import_MplPlotter]"
    by (simp_all add: after_update_def render_def after_update_calls_def)
  with draw_finalized [OF Inr] Inr names_matplotlib show ?thesis
    by (simp add: load_stage_def missing_matplotlib_def)
qed

theorem draw_missing_matplotlib_witness:
  "plotter plain_call = Some Plotter_MPL_value
   \<and> MplPlotter recorder_without_matplotlib = None
   \<and> \<not> isl (finalized_canvas recorder_without_matplotlib plain_call)
   \<and> (\<exists>msg. result (draw recorder_without_matplotlib plain_call) = Inl (ImportError msg)
          \<and> sublist ''Matplotlib'' msg)
   \<and> (\<forall>msg. result (draw recorder_without_matplotlib plain_call)
          \<noteq> Inl (VisualizationError msg))"
proof -
  have name: "plotter plain_call = Some Plotter_MPL_value"
    by (simp add: plain_call_def default_args_def)
  have missing: "MplPlotter recorder_without_matplotlib = None"
    by (simp add: recorder_without_matplotlib_def)
  from plain_call_finalized obtain c where
    fin: "finalized_canvas recorder_without_matplotlib plain_call = Inr c"
    by (cases "finalized_canvas recorder_without_matplotlib plain_call") auto
  from draw_missing_matplotlib [OF name missing, unfolded fin sum.case]
    name missing plain_call_finalized
  show ?thesis by blast
qed

text \<open>
  Claim C7. In every call of \<open>draw\<close> that returns an image, the steps are taken in this
  order, each on what the step before returned: the style is resolved by \<open>update\<close> and
  the per-call overrides are written to it; the canvas is created with that style and
  \<open>load_program\<close> is invoked on it; the setters run on the loaded canvas
  (\<open>set_time_range\<close>, then \<open>set_disable_bits\<close> for each listed bit, then
  \<open>set_disable_type\<close> for the labels); \<open>update\<close> is invoked, once, on the canvas the
  setters left; the plotter is imported, constructed on the canvas \<open>update\<close> returned,
  and drawn; the figure is saved if a file name is given; \<open>get_image\<close> returns the image.
\<close>

theorem draw_pipeline_order:
  assumes "result (draw env args) = Inr img"
  shows "trace (draw env args) =
           resolve_stage args @ override_stage args @
           [New_DrawerCanvas (per_call_style env args), Load_program] @
           setter_stage args @ [Update] @
           [Import_MplPlotter, New_MplPlotter, Plotter_draw] @
           save_stage args @ [Get_image]
         \<and> length (filter (\<lambda>ev. ev = Update) (trace (draw env args))) = 1
         \<and> (\<exists>sheet c0 c1 c2 c3 c new p p'.
              stylesheet_update env (QiskitTimelineStyle env) (style_source env args) = Inr sheet
            \<and> per_call_style env args = with_overrides args sheet
            \<and> load_program env (DrawerCanvas env (with_overrides args sheet)) (program args)
                = Inr c0
            \<and> set_range env args c0 = Inr c1
            \<and> hide_bits env args c1 = Inr c2
            \<and> hide_labels env args c2 = Inr c3
            \<and> canvas_update env c3 = Inr c
            \<and> plotter args = Some Plotter_MPL_value
            \<and> MplPlotter env = Some new
            \<and> plotter_draw env (new c (axis args)) = Inr p
            \<and> persist env args p = Inr p'
            \<and> get_image env p' = Inr img)"
proof -
  from assms obtain c where c: "finalized_canvas env args = Inr c"
    and after: "after_update env args c = Inr img"
    by (auto simp: draw_result then_do_Inr)
  from after obtain p p' where p: "render env args c = Inr p"
    and p': "persist env args p = Inr p'" and img: "get_image env p' = Inr img"
    by (auto simp: after_update_def then_do_Inr)
  from p obtain new where mpl: "plotter args = Some Plotter_MPL_value"
    and new: "MplPlotter env = Some new"
    and drawn: "plotter_draw env (new c (axis args)) = Inr p"
    by (auto simp: render_def missing_matplotlib_def split: if_splits option.splits)
  from c obtain sheet c0 c1 c2 c3 where
    sheet: "resolved_style env args = Inr sheet"
    and steps: "load_program env (DrawerCanvas env (with_overrides args sheet)) (program args)
                = Inr c0"
      "set_range env args c0 = Inr c1" "hide_bits env args c1 = Inr c2"
      "hide_labels env args c2 = Inr c3" "canvas_update env c3 = Inr c"
    by (auto simp: finalized_canvas_def labelled_canvas_def bits_canvas_def loaded_canvas_def
          then_do_Inr)
  from mpl new drawn p'
  have "after_update_calls env args c =
      [Import_MplPlotter, New_MplPlotter, Plotter_draw] @ save_stage args @ [Get_image]"
    by (simp add: after_update_calls_def)
  with draw_finalized(2) [OF c]
  have eq: "trace (draw env args) =
           resolve_stage args @ override_stage args @
           [New_DrawerCanvas (per_call_style env args), Load_program] @
           setter_stage args @ [Update] @
           [Import_MplPlotter, New_MplPlotter, Plotter_draw] @
           save_stage args @ [Get_image]"
    by (simp add: load_stage_def)
  have none: "\<And>xs. Update \<notin> set xs \<Longrightarrow> filter (\<lambda>ev. ev = Update) xs = []"
    by (auto simp: filter_empty_conv)
  have once: "length (filter (\<lambda>ev. ev = Update) (trace (draw env args))) = 1"
    unfolding eq by (simp add: none)
  from sheet steps mpl new drawn p' img
  have "\<exists>sheet c0 c1 c2 c3 c new p p'.
              stylesheet_update env (QiskitTimelineStyle env) (style_source env args) = Inr sheet
            \<and> per_call_style env args = with_overrides args sheet
            \<and> load_program env (DrawerCanvas env (with_overrides args sheet)) (program args)
                = Inr c0
            \<and> set_range env args c0 = Inr c1
            \<and> hide_bits env args c1 = Inr c2
            \<and> hide_labels env args c2 = Inr c3
            \<and> canvas_update env c3 = Inr c
            \<and> plotter args = Some Plotter_MPL_value
            \<and> MplPlotter env = Some new
            \<and> plotter_draw env (new c (axis args)) = Inr p
            \<and> persist env args p = Inr p'
            \<and> get_image env p' = Inr img"
    by (auto simp: resolved_style_def per_call_style_def)
  with eq once show ?thesis by blast
qed

theorem draw_pipeline_order_witness:
  "\<not> isl (result (draw recorder busy_call))
   \<and> trace (draw recorder busy_call) =
           resolve_stage busy_call @ override_stage busy_call @
           [New_DrawerCanvas (per_call_style recorder busy_call), Load_program] @
           setter_stage busy_call @ [Update] @
           [Import_MplPlotter, New_MplPlotter, Plotter_draw] @
           save_stage busy_call @ [Get_image]
   \<and> length (filter (\<lambda>ev. ev = Update) (trace (draw recorder busy_call))) = 1
   \<and> (\<exists>c3 c new p. canvas_update recorder c3 = Inr c
        \<and> MplPlotter recorder = Some new
        \<and> plotter_draw recorder (new c (axis busy_call)) = Inr p)"
proof -
  have "\<not> isl (result (draw recorder busy_call))"
    by (simp add: busy_call_result)
  with draw_pipeline_order [of recorder busy_call, OF busy_call_result]
  show ?thesis by blast
qed

text \<open>
  Claim C8. Every style argument that is not falsy, a plain \<open>dict\<close> as well as an instance
  of a preset class (the class name is arbitrary), goes through the same single step:
  \<open>draw\<close> creates a new \<open>QiskitTimelineStyle\<close> and calls its \<open>update\<close> once, with the
  caller's object as argument; no preset is created. If \<open>update\<close> raises, \<open>draw\<close> raises
  the same exception; otherwise the per-call style is what \<open>update\<close> gave, with the control
  overrides.
\<close>

theorem draw_style_resolution:
  assumes "style args = Some obj" and "items obj \<noteq> []"
  shows "prefix [New_QiskitTimelineStyle, Style_update caller_style] (trace (draw env args))
       \<and> filter is_style_update (trace (draw env args)) = [Style_update caller_style]
       \<and> New_IQXStandard \<notin> set (trace (draw env args))
       \<and> (case stylesheet_update env (QiskitTimelineStyle env) obj of
            Inl e \<Rightarrow> result (draw env args) = Inl e
                     \<and> trace (draw env args) = [New_QiskitTimelineStyle, Style_update caller_style]
          | Inr sheet \<Rightarrow> final_store (draw env args) temp_style_ref = with_overrides args sheet)"
proof -
  from truthy_source [OF assms, of env]
  have src: "truthy (style args)" "style_source env args = obj" by auto
  then have stage: "resolve_stage args = [New_QiskitTimelineStyle, Style_update caller_style]"
    by (simp add: resolve_stage_def)
  from draw_style_calls [of env args] src(1) stage
  have "prefix [New_QiskitTimelineStyle, Style_update caller_style] (trace (draw env args))"
    and "filter is_style_update (trace (draw env args)) = [Style_update caller_style]"
    and "New_IQXStandard \<notin> set (trace (draw env args))"
    by (simp_all add: is_style_update_def)
  moreover from draw_resolution [of env args] src(2) stage
  have "case stylesheet_update env (QiskitTimelineStyle env) obj of
            Inl e \<Rightarrow> result (draw env args) = Inl e
                     \<and> trace (draw env args) = [New_QiskitTimelineStyle, Style_update caller_style]
          | Inr sheet \<Rightarrow> final_store (draw env args) temp_style_ref = with_overrides args sheet"
    by (simp add: resolved_style_def split: sum.splits)
  ultimately show ?thesis by blast
qed

theorem draw_style_resolution_witness:
  "(\<exists>obj. style busy_call = Some obj \<and> class_name obj = ''dict'' \<and> items obj \<noteq> [])
   \<and> filter is_style_update (trace (draw recorder busy_call)) = [Style_update caller_style]
   \<and> New_IQXStandard \<notin> set (trace (draw recorder busy_call))
   \<and> (\<exists>obj. style preset_call = Some obj \<and> class_name obj = ''IQXSimple'' \<and> items obj \<noteq> [])
   \<and> filter is_style_update (trace (draw recorder preset_call)) = [Style_update caller_style]
   \<and> New_IQXStandard \<notin> set (trace (draw recorder preset_call))"
proof -
  have busy: "style busy_call = Some \<lparr> class_name = ''dict'',
       items = [(''formatter.control.show_idle'', VBool True),
                (''formatter.general.fig_width'', VInt 16)] \<rparr>"
    by (simp add: busy_call_def default_args_def)
  have preset: "style preset_call = Some \<lparr> class_name = ''IQXSimple'',
       items = [(''formatter.general.fig_width'', VInt 14),
                (''formatter.control.show_idle'', VBool False)] \<rparr>"
    by (simp add: preset_call_def default_args_def)
  from draw_style_resolution [OF busy, of recorder] draw_style_resolution [OF preset, of recorder]
    busy preset
  show ?thesis by simp
qed

text \<open>
  Claim C9. When \<open>style\<close> is \<open>None\<close> (or omitted) or a mapping without items, \<open>draw\<close>
  creates an \<open>IQXStandard\<close> preset and resolves the style from it, by one \<open>update\<close> call
  with the preset as argument. A call with an empty style is indistinguishable from the
  call with no style: the same result, the same calls in the same order, the same objects
  created.
\<close>

theorem draw_falsy_style:
  fixes env :: "('prog, 'c, 'ax, 'p, 'img) collaborators"
  assumes "style args = None \<or> (\<exists>obj. style args = Some obj \<and> items obj = [])"
  shows "result (draw env args) = result (draw env (args\<lparr>style := None\<rparr>))
       \<and> trace (draw env args) = trace (draw env (args\<lparr>style := None\<rparr>))
       \<and> (\<forall>a. a \<noteq> caller_style \<longrightarrow>
            final_store (draw env args) a = final_store (draw env (args\<lparr>style := None\<rparr>)) a)
       \<and> prefix [New_QiskitTimelineStyle, New_IQXStandard, Style_update preset_ref]
            (trace (draw env args))
       \<and> filter is_style_update (trace (draw env args)) = [Style_update preset_ref]
       \<and> final_store (draw env args) preset_ref = IQXStandard env
       \<and> (case stylesheet_update env (QiskitTimelineStyle env) (IQXStandard env) of
            Inl e \<Rightarrow> result (draw env args) = Inl e
          | Inr sheet \<Rightarrow> final_store (draw env args) temp_style_ref = with_overrides args sheet)"
proof -
  from falsy_source [OF assms, of env]
  have falsy: "\<not> truthy (style args)" and src: "style_source env args = IQXStandard env"
    by auto
  then have stage: "resolve_stage args =
      [New_QiskitTimelineStyle, New_IQXStandard, Style_update preset_ref]"
    by (simp add: resolve_stage_def)
  from draw_style_calls [of env args] stage
  have "prefix [New_QiskitTimelineStyle, New_IQXStandard, Style_update preset_ref]
            (trace (draw env args))"
    and "filter is_style_update (trace (draw env args)) = [Style_update preset_ref]"
    by (simp_all add: is_style_update_def)
  moreover have "final_store (draw env args) preset_ref = IQXStandard env"
    using falsy
    by (cases env args rule: draw_cases)
       (simp_all add: loaded_world_def head_world_def preset_ref_def temp_style_ref_def)
  moreover from draw_resolution [of env args] src
  have "case stylesheet_update env (QiskitTimelineStyle env) (IQXStandard env) of
            Inl e \<Rightarrow> result (draw env args) = Inl e
          | Inr sheet \<Rightarrow> final_store (draw env args) temp_style_ref = with_overrides args sheet"
    by (simp add: resolved_style_def split: sum.splits)
  ultimately show ?thesis
    using draw_falsy_same [OF falsy, of env] by blast
qed

theorem draw_falsy_style_witness:
  "(\<exists>obj. style empty_style_call = Some obj \<and> items obj = [])
   \<and> empty_style_call\<lparr>style := None\<rparr> = plain_call
   \<and> result (draw recorder empty_style_call) = result (draw recorder plain_call)
   \<and> trace (draw recorder empty_style_call) = trace (draw recorder plain_call)
   \<and> filter is_style_update (trace (draw recorder empty_style_call)) = [Style_update preset_ref]
   \<and> final_store (draw recorder empty_style_call) preset_ref = IQXStandard recorder"
proof -
  have empty: "\<exists>obj. style empty_style_call = Some obj \<and> items obj = []"
    by (simp add: empty_style_call_def default_args_def)
  have same: "empty_style_call\<lparr>style := None\<rparr> = plain_call"
    by (simp add: empty_style_call_def plain_call_def default_args_def)
  from empty have "style empty_style_call = None \<or>
      (\<exists>obj. style empty_style_call = Some obj \<and> items obj = [])" by blast
  from draw_falsy_style [OF this, of recorder, unfolded same] empty same show ?thesis
    by blast
qed

text \<open>
  Claim C10. \<open>draw\<close> does not change the caller's style object: after the call, whatever
  its outcome, the object holds what it held before. The per-call style is another object
  (\<open>temp_style_ref\<close> differs from \<open>caller_style\<close>), and the control overrides are in that
  one.
\<close>

theorem draw_keeps_caller_style:
  assumes "style args = Some obj"
  shows "final_store (draw env args) caller_style = obj
       \<and> temp_style_ref \<noteq> caller_style
       \<and> (\<forall>sheet. stylesheet_update env (QiskitTimelineStyle env) (style_source env args)
                     = Inr sheet \<longrightarrow>
            final_store (draw env args) temp_style_ref = with_overrides args sheet)"
  using draw_caller_style [of env args] draw_temp_style [of env args] assms
  by (simp add: initial_world_def temp_style_ref_def resolved_style_def)

theorem draw_keeps_caller_style_witness:
  "style busy_call = Some \<lparr> class_name = ''dict'',
       items = [(''formatter.control.show_idle'', VBool True),
                (''formatter.general.fig_width'', VInt 16)] \<rparr>
   \<and> show_idle busy_call = Some False
   \<and> final_store (draw recorder busy_call) caller_style =
       \<lparr> class_name = ''dict'',
         items = [(''formatter.control.show_idle'', VBool True),
                  (''formatter.general.fig_width'', VInt 16)] \<rparr>
   \<and> entry (final_store (draw recorder busy_call) temp_style_ref)
        ''formatter.control.show_idle'' = Some (VBool False)"
proof -
  have given: "style busy_call = Some \<lparr> class_name = ''dict'',
       items = [(''formatter.control.show_idle'', VBool True),
                (''formatter.general.fig_width'', VInt 16)] \<rparr>"
    and idle: "show_idle busy_call = Some False"
    by (simp_all add: busy_call_def default_args_def)
  have "\<exists>sheet. stylesheet_update recorder (QiskitTimelineStyle recorder)
           (style_source recorder busy_call) = Inr sheet"
    by (simp add: recorder_def)
  with draw_keeps_caller_style [OF given, of recorder] given idle
    entry_with_overrides(1) [of busy_call]
  show ?thesis by auto
qed

end
